theory Spec2Isabelle
  imports Main
begin

section \<open>The world the provisioning scripts act on\<close>

text \<open>
  The repository's executable part is two Bash scripts (\<^verbatim>\<open>scripts/setup.sh\<close> and the
  Codespace setup script) and one React layout component. The scripts are modelled as
  state transformers over a small file system, the shell's own state and a record of
  what they printed and ran.

  A path is the list of its components below the directory the script is started in;
  a node is a regular file with its bytes or a directory. Symbolic links, permissions
  and a full disk are not modelled.
\<close>

type_synonym path = "string list"

datatype node = File string | Dir

type_synonym fsys = "path \<Rightarrow> node option"

definition is_file :: "fsys \<Rightarrow> path \<Rightarrow> bool" where
  \<comment> \<open>\<^verbatim>\<open>[ -f p ]\<close>\<close>
  "is_file f p = (case f p of Some (File c) \<Rightarrow> True | _ \<Rightarrow> False)"

definition is_dir :: "fsys \<Rightarrow> path \<Rightarrow> bool" where
  \<comment> \<open>\<^verbatim>\<open>[ -d p ]\<close>; the starting directory itself always is one\<close>
  "is_dir f p = (p = [] \<or> f p = Some Dir)"

definition write_file :: "fsys \<Rightarrow> path \<Rightarrow> string \<Rightarrow> nat \<times> fsys" where
  \<comment> \<open>opening \<^verbatim>\<open>> p\<close> and writing: the parent must be a directory and \<open>p\<close> must not be one\<close>
  "write_file f p c =
     (if p \<noteq> [] \<and> is_dir f (butlast p) \<and> f p \<noteq> Some Dir
      then (0, f(p \<mapsto> File c)) else (1, f))"

fun mkdir_p :: "fsys \<Rightarrow> path \<Rightarrow> path \<Rightarrow> nat \<times> fsys" where
  \<comment> \<open>\<^verbatim>\<open>mkdir -p\<close> of the components \<open>ds\<close> below \<open>base\<close>: existing directories are kept,
      missing ones are made, anything else in the way is an error\<close>
  "mkdir_p f base [] = (0, f)"
| "mkdir_p f base (d # ds) =
     (if is_dir f (base @ [d]) then mkdir_p f (base @ [d]) ds
      else if f (base @ [d]) = None \<and> is_dir f base
        then mkdir_p (f(base @ [d] \<mapsto> Dir)) (base @ [d]) ds
      else (1, f))"

definition cp :: "fsys \<Rightarrow> path \<Rightarrow> path \<Rightarrow> nat \<times> fsys" where
  \<comment> \<open>\<^verbatim>\<open>cp src dst\<close> without \<^verbatim>\<open>-r\<close>: the source must be a regular file; a directory
      as destination receives the file under the source's name\<close>
  "cp f src dst =
     (case f src of
        Some (File c) \<Rightarrow>
          (if is_dir f dst then write_file f (dst @ [last src]) c else write_file f dst c)
      | _ \<Rightarrow> (1, f))"

definition path_str :: "path \<Rightarrow> string" where
  "path_str p = (case p of [] \<Rightarrow> ''.'' | d # ds \<Rightarrow> foldl (\<lambda>a b. a @ ''/'' @ b) d ds)"

subsection \<open>Shell state\<close>

text \<open>
  Bash exempts some commands from \<^verbatim>\<open>set -e\<close>: the condition of an \<^verbatim>\<open>if\<close>, every
  command of a pipeline but the last, and a command substitution inside the words of
  another command. The trace records, for each command run, where it stood, its words
  and its exit status.
\<close>

datatype place = Checked | Condition | Pipeline | Substitution

type_synonym entry = "place \<times> string list \<times> nat"

record state =
  files :: fsys
  cwd :: path
  vars :: "string \<Rightarrow> string option"
  params :: "string list"
  stdout :: "string list"
  trace :: "entry list"
  errexit :: bool
  status :: nat

text \<open>
  \<open>errexit\<close> is the shell option that \<^verbatim>\<open>set -e\<close> turns on, \<open>status\<close> is \<^verbatim>\<open>$?\<close>, the exit
  status of the last command run.
\<close>

text \<open>
  What the scripts cannot decide themselves: whether \<^verbatim>\<open>node\<close> is on the PATH, what
  \<^verbatim>\<open>node -v\<close> answers (its exit status and the bytes it writes to its standard output,
  newlines included, the same each time it is asked), whether the standard output of the
  script can be written, and what the package managers (\<^verbatim>\<open>apt-get\<close>, \<^verbatim>\<open>npm\<close>, \<^verbatim>\<open>npx\<close>) do
  when run with given words in a given directory: their exit status and the files they
  leave. What the package managers print is not part of the model.

  \<open>echo_status\<close> is the status every \<^verbatim>\<open>echo\<close> of the run ends with: 0 when the standard
  output takes the line, 1 when writing fails (a closed descriptor, a full device), 141
  when the reader of a pipe has gone and the shell is killed by the signal. It is the
  same for every \<^verbatim>\<open>echo\<close> of a run and for every run in the same surroundings.
\<close>

record env =
  node_found :: bool
  node_v :: "nat \<times> string"
  echo_status :: nat
  run_ext :: "string list \<Rightarrow> path \<Rightarrow> fsys \<Rightarrow> nat \<times> fsys"

datatype outcome = Running state | Exited nat state

type_synonym command = "state \<Rightarrow> outcome"

definition log :: "place \<Rightarrow> string list \<Rightarrow> nat \<Rightarrow> state \<Rightarrow> state" where
  \<comment> \<open>a command has run: it is recorded, and its status is the new \<^verbatim>\<open>$?\<close>\<close>
  "log k ws rc s = s\<lparr>trace := trace s @ [(k, ws, rc)], status := rc\<rparr>"

definition set_e :: command where
  \<comment> \<open>\<^verbatim>\<open>set -e\<close>, line 6 of both scripts: it only turns the option on, and is not recorded\<close>
  "set_e s = Running (s\<lparr>errexit := True\<rparr>)"

definition simple :: "string list \<Rightarrow> (state \<Rightarrow> nat \<times> state) \<Rightarrow> command" where
  \<comment> \<open>a command in plain position: with \<open>errexit\<close> on, a non-zero status ends the script
      with that status; with the option off the script goes on\<close>
  "simple ws sem s =
     (case sem s of (rc, s') \<Rightarrow>
        if rc \<noteq> 0 \<and> errexit s' then Exited rc (log Checked ws rc s')
        else Running (log Checked ws rc s'))"

fun seq :: "command list \<Rightarrow> command" where
  "seq [] s = Running s"
| "seq (c # cs) s = (case c s of Running s' \<Rightarrow> seq cs s' | Exited rc s' \<Rightarrow> Exited rc s')"

definition if_then_else :: "(state \<Rightarrow> bool \<times> state) \<Rightarrow> command list \<Rightarrow> command list \<Rightarrow> command" where
  \<comment> \<open>the status of an \<^verbatim>\<open>if\<close> none of whose commands ran is 0\<close>
  "if_then_else cond thn els s =
     (case cond s of (b, s') \<Rightarrow>
        (case (if b then thn else els) of
           [] \<Rightarrow> Running (s'\<lparr>status := 0\<rparr>)
         | c # cs \<Rightarrow> seq (c # cs) s'))"

definition finish :: "outcome \<Rightarrow> nat \<times> state" where
  \<comment> \<open>a script that runs to its end returns the status of the last command it ran\<close>
  "finish r = (case r of Running s \<Rightarrow> (status s, s) | Exited rc s \<Rightarrow> (rc, s))"

subsection \<open>The commands the scripts use\<close>

definition echo :: "env \<Rightarrow> string \<Rightarrow> command" where
  \<comment> \<open>\<^verbatim>\<open>echo "t"\<close>: the line is printed when the standard output takes it\<close>
  "echo E t =
     simple [''echo'', t]
       (\<lambda>s. if echo_status E = 0 then (0, s\<lparr>stdout := stdout s @ [t]\<rparr>) else (echo_status E, s))"

definition exit_cmd :: "nat \<Rightarrow> string \<Rightarrow> command" where
  \<comment> \<open>\<^verbatim>\<open>exit n\<close>, with \<open>n\<close> as written in the script\<close>
  "exit_cmd n w s = Exited n (log Checked [''exit'', w] n s)"

definition ext :: "env \<Rightarrow> string list \<Rightarrow> command" where
  "ext E ws =
     simple ws (\<lambda>s. case run_ext E ws (cwd s) (files s) of (rc, f') \<Rightarrow> (rc, s\<lparr>files := f'\<rparr>))"

definition cp_cmd :: "path \<Rightarrow> path \<Rightarrow> command" where
  "cp_cmd src dst =
     simple [''cp'', path_str src, path_str dst]
       (\<lambda>s. case cp (files s) (cwd s @ src) (cwd s @ dst) of (rc, f') \<Rightarrow> (rc, s\<lparr>files := f'\<rparr>))"

definition mkdir_p_cmd :: "path \<Rightarrow> command" where
  "mkdir_p_cmd p =
     simple [''mkdir'', ''-p'', path_str p]
       (\<lambda>s. case mkdir_p (files s) (cwd s) p of (rc, f') \<Rightarrow> (rc, s\<lparr>files := f'\<rparr>))"

definition cat_to :: "path \<Rightarrow> string \<Rightarrow> command" where
  \<comment> \<open>\<^verbatim>\<open>cat > p << 'EOF'\<close> with the here-document's text\<close>
  "cat_to p doc =
     simple [''cat'', ''>'', path_str p]
       (\<lambda>s. case write_file (files s) (cwd s @ p) doc of (rc, f') \<Rightarrow> (rc, s\<lparr>files := f'\<rparr>))"

definition cd :: "string \<Rightarrow> command" where
  \<comment> \<open>the scripts only ever \<^verbatim>\<open>cd\<close> one level down and back up again\<close>
  "cd d =
     simple [''cd'', d]
       (\<lambda>s. if d = ''..'' then (0, s\<lparr>cwd := butlast (cwd s)\<rparr>)
            else if is_dir (files s) (cwd s @ [d]) then (0, s\<lparr>cwd := cwd s @ [d]\<rparr>)
            else (1, s))"

definition test_not_f :: "path \<Rightarrow> state \<Rightarrow> bool \<times> state" where
  \<comment> \<open>\<^verbatim>\<open>[ ! -f p ]\<close> as the condition of an \<^verbatim>\<open>if\<close>\<close>
  "test_not_f p s =
     (let b = \<not> is_file (files s) (cwd s @ p)
      in (b, log Condition [''['', ''!'', ''-f'', path_str p, '']''] (if b then 0 else 1) s))"

definition test_not_d :: "path \<Rightarrow> state \<Rightarrow> bool \<times> state" where
  \<comment> \<open>\<^verbatim>\<open>[ ! -d p ]\<close> as the condition of an \<^verbatim>\<open>if\<close>\<close>
  "test_not_d p s =
     (let b = \<not> is_dir (files s) (cwd s @ p)
      in (b, log Condition [''['', ''!'', ''-d'', path_str p, '']''] (if b then 0 else 1) s))"

definition not_command_v_node :: "env \<Rightarrow> state \<Rightarrow> bool \<times> state" where
  \<comment> \<open>\<^verbatim>\<open>! command -v node &> /dev/null\<close> as the condition of an \<^verbatim>\<open>if\<close>\<close>
  "not_command_v_node E s =
     (let rc = (if node_found E then 0 else 1)
      in (rc \<noteq> 0, log Condition [''command'', ''-v'', ''node''] rc s))"

subsection \<open>Reading the version: \<^verbatim>\<open>cut\<close> and the integer test\<close>

fun nth_field :: "char \<Rightarrow> nat \<Rightarrow> string \<Rightarrow> string" where
  "nth_field d 0 l = takeWhile (\<lambda>c. c \<noteq> d) l"
| "nth_field d (Suc n) l =
     (case dropWhile (\<lambda>c. c \<noteq> d) l of [] \<Rightarrow> [] | c # r \<Rightarrow> nth_field d n r)"

definition cut_field :: "char \<Rightarrow> nat \<Rightarrow> string \<Rightarrow> string" where
  \<comment> \<open>\<^verbatim>\<open>cut -dD -fN\<close> on one line: a line without the delimiter is passed through\<close>
  "cut_field d n l = (if d \<in> set l then nth_field d (n - 1) l else l)"

fun lines_of :: "string \<Rightarrow> string list" where
  \<comment> \<open>the lines of a text: each is ended by a newline, the last one perhaps by the end
      of the text\<close>
  "lines_of [] = []"
| "lines_of (c # cs) =
     (if c = CHR 0x0A then [] # lines_of cs
      else (case lines_of cs of [] \<Rightarrow> [[c]] | l # ls \<Rightarrow> (c # l) # ls))"

fun unlines :: "string list \<Rightarrow> string" where
  \<comment> \<open>every line with its newline\<close>
  "unlines [] = []"
| "unlines (l # ls) = l @ [CHR 0x0A] @ unlines ls"

definition cut_cmd :: "char \<Rightarrow> nat \<Rightarrow> string \<Rightarrow> string" where
  \<comment> \<open>\<^verbatim>\<open>cut -dD -fN\<close> as a filter: it cuts every line of its input and writes each with a
      newline\<close>
  "cut_cmd d n text = unlines (map (cut_field d n) (lines_of text))"

definition command_subst :: "string \<Rightarrow> string" where
  \<comment> \<open>\<^verbatim>\<open>$(...)\<close>: the output of the command without its NUL bytes and without the newlines
      at its end\<close>
  "command_subst out = rev (dropWhile (\<lambda>c. c = CHR 0x0A) (rev (filter (\<lambda>c. c \<noteq> CHR 0x00) out)))"

definition is_space :: "char \<Rightarrow> bool" where
  \<comment> \<open>C's \<^verbatim>\<open>isspace\<close>, skipped by \<^verbatim>\<open>strtoimax\<close> before the number\<close>
  "is_space c = (c \<in> set [CHR 0x20, CHR 0x09, CHR 0x0A, CHR 0x0B, CHR 0x0C, CHR 0x0D])"

definition is_blank :: "char \<Rightarrow> bool" where
  \<comment> \<open>Bash's \<^verbatim>\<open>whitespace\<close>, allowed after the number\<close>
  "is_blank c = (c = CHR 0x20 \<or> c = CHR 0x09)"

definition is_digit :: "char \<Rightarrow> bool" where
  "is_digit c = (48 \<le> (of_char c :: nat) \<and> (of_char c :: nat) \<le> 57)"

fun digits_val :: "nat \<Rightarrow> string \<Rightarrow> nat" where
  "digits_val a [] = a"
| "digits_val a (c # cs) = digits_val (10 * a + ((of_char c :: nat) - 48)) cs"

definition legal_number :: "string \<Rightarrow> int option" where
  \<comment> \<open>Bash's \<^verbatim>\<open>legal_number\<close>: blanks, an optional sign, decimal digits, blanks; a value
      outside \<^verbatim>\<open>intmax_t\<close> is refused\<close>
  "legal_number w =
     (let s1 = dropWhile is_space w;
          neg = (s1 \<noteq> [] \<and> hd s1 = CHR ''-'');
          s2 = (if s1 \<noteq> [] \<and> (hd s1 = CHR ''-'' \<or> hd s1 = CHR ''+'') then tl s1 else s1);
          ds = takeWhile is_digit s2;
          rest = dropWhile is_blank (dropWhile is_digit s2);
          v = (if neg then - int (digits_val 0 ds) else int (digits_val 0 ds))
      in if ds = [] \<or> rest \<noteq> [] \<or> v < - (2 ^ 63) \<or> 2 ^ 63 \<le> v then None else Some v)"

definition test_lt :: "string \<Rightarrow> int \<Rightarrow> string \<Rightarrow> state \<Rightarrow> bool \<times> state" where
  \<comment> \<open>\<^verbatim>\<open>[ "$VAR" -lt n ]\<close> as the condition of an \<^verbatim>\<open>if\<close>: status 2 (and so the
      \<^verbatim>\<open>else\<close> side) when the variable does not hold an integer\<close>
  "test_lt var n w s =
     (let v = (case vars s var of None \<Rightarrow> [] | Some x \<Rightarrow> x);
          rc = (case legal_number v of None \<Rightarrow> 2 | Some i \<Rightarrow> if i < n then 0 else 1)
      in (rc = 0, log Condition [''['', v, ''-lt'', w, '']''] rc s))"

definition node_version :: "env \<Rightarrow> string" where
  \<comment> \<open>the value of \<^verbatim>\<open>$(node -v | cut -d'v' -f2 | cut -d'.' -f1)\<close>\<close>
  "node_version E =
     command_subst (cut_cmd (CHR ''.'') 1 (cut_cmd (CHR ''v'') 2 (snd (node_v E))))"

definition assign_node_version :: "env \<Rightarrow> command" where
  \<comment> \<open>\<^verbatim>\<open>NODE_VERSION=$(node -v | cut -d'v' -f2 | cut -d'.' -f1)\<close>: the status of the
      assignment is that of the last \<^verbatim>\<open>cut\<close>, which is 0; the status of \<^verbatim>\<open>node -v\<close> is lost
      in the pipeline\<close>
  "assign_node_version E s =
     (let s1 = log Pipeline [''node'', ''-v''] (fst (node_v E)) s;
          s2 = log Pipeline [''cut'', ''-dv'', ''-f2''] 0 s1;
          s3 = log Checked [''cut'', ''-d.'', ''-f1''] 0 s2;
          v = node_version E
      in Running (s3\<lparr>vars := (vars s3)(''NODE_VERSION'' \<mapsto> v)\<rparr>))"

definition echo_node_v :: "env \<Rightarrow> string \<Rightarrow> command" where
  \<comment> \<open>\<^verbatim>\<open>echo "... $(node -v)"\<close>\<close>
  "echo_node_v E t s =
     echo E (t @ command_subst (snd (node_v E)))
       (log Substitution [''node'', ''-v''] (fst (node_v E)) s)"

section \<open>\<^verbatim>\<open>scripts/setup.sh\<close>\<close>

text \<open>The pictographs of the messages, as the UTF-8 bytes the script holds.\<close>

definition rocket :: string where "rocket = [CHR 0xF0, CHR 0x9F, CHR 0x9A, CHR 0x80]"
definition cross_mark :: string where "cross_mark = [CHR 0xE2, CHR 0x9D, CHR 0x8C]"
definition check_mark :: string where "check_mark = [CHR 0xE2, CHR 0x9C, CHR 0x85]"
definition package :: string where "package = [CHR 0xF0, CHR 0x9F, CHR 0x93, CHR 0xA6]"
definition memo :: string where "memo = [CHR 0xF0, CHR 0x9F, CHR 0x93, CHR 0x9D]"
definition warning_sign :: string where
  "warning_sign = [CHR 0xE2, CHR 0x9A, CHR 0xA0, CHR 0xEF, CHR 0xB8, CHR 0x8F]"
definition party_popper :: string where "party_popper = [CHR 0xF0, CHR 0x9F, CHR 0x8E, CHR 0x89]"
definition books :: string where "books = [CHR 0xF0, CHR 0x9F, CHR 0x93, CHR 0x9A]"

text \<open>The text of a here-document is its lines, every one with its newline.\<close>

definition frontend_package_json :: string where
  \<comment> \<open>lines 43 to 57\<close>
  \<open>frontend_package_json = unlines
  [''{'',
   ''  "name": "actual-build-frontend",'',
   ''  "version": "1.0.0",'',
   ''  "description": "Frontend for Actual Build",'',
   ''  "main": "index.js",'',
   ''  "scripts": {'',
   ''    "dev": "echo E '' @ [CHR 0x27] @ ''Frontend development server not configured yet'' @ [CHR 0x27] @ ''",'',
   ''    "build": "echo E '' @ [CHR 0x27] @ ''Frontend build not configured yet'' @ [CHR 0x27] @ ''",'',
   ''    "test": "echo E '' @ [CHR 0x27] @ ''Frontend tests not configured yet'' @ [CHR 0x27] @ ''",'',
   ''    "lint": "echo E '' @ [CHR 0x27] @ ''Frontend linting not configured yet'' @ [CHR 0x27] @ ''"'',
   ''  },'',
   ''  "keywords": ["frontend", "web"],'',
   ''  "author": "Nibert Investments",'',
   ''  "license": "MIT"'',
   ''}'']\<close>

definition backend_package_json :: string where
  \<comment> \<open>lines 65 to 80\<close>
  \<open>backend_package_json = unlines
  [''{'',
   ''  "name": "actual-build-backend",'',
   ''  "version": "1.0.0",'',
   ''  "description": "Backend API for Actual Build",'',
   ''  "main": "index.js",'',
   ''  "scripts": {'',
   ''    "dev": "echo E '' @ [CHR 0x27] @ ''Backend development server not configured yet'' @ [CHR 0x27] @ ''",'',
   ''    "start": "echo E '' @ [CHR 0x27] @ ''Backend production server not configured yet'' @ [CHR 0x27] @ ''",'',
   ''    "build": "echo E '' @ [CHR 0x27] @ ''Backend build not configured yet'' @ [CHR 0x27] @ ''",'',
   ''    "test": "echo E '' @ [CHR 0x27] @ ''Backend tests not configured yet'' @ [CHR 0x27] @ ''",'',
   ''    "lint": "echo E '' @ [CHR 0x27] @ ''Backend linting not configured yet'' @ [CHR 0x27] @ ''"'',
   ''  },'',
   ''  "keywords": ["backend", "api", "nodejs"],'',
   ''  "author": "Nibert Investments",'',
   ''  "license": "MIT"'',
   ''}'']\<close>

definition check_node_installed :: "env \<Rightarrow> command" where
  \<comment> \<open>lines 10 to 14\<close>
  "check_node_installed E =
     if_then_else (not_command_v_node E)
       [echo E (cross_mark @ '' Node.js is not installed. Please install Node.js 18+ and try again.''),
        exit_cmd 1 ''1'']
       []"

definition check_node_version :: "env \<Rightarrow> command" where
  \<comment> \<open>lines 16 to 21\<close>
  "check_node_version E =
     seq
       [assign_node_version E,
        if_then_else (test_lt ''NODE_VERSION'' 18 ''18'')
          [echo_node_v E (cross_mark @ '' Node.js version 18+ is required. Current version: ''),
           exit_cmd 1 ''1'']
          []]"

definition create_env_file :: "env \<Rightarrow> command" where
  \<comment> \<open>lines 29 to 36\<close>
  "create_env_file E =
     if_then_else (test_not_f [''.env''])
       [echo E (memo @ '' Creating .env file from template...''),
        cp_cmd [''.env.example''] [''.env''],
        echo E (warning_sign @ ''  Please edit .env file with your configuration before starting development'')]
       [echo E (check_mark @ '' .env file already exists'')]"

definition create_frontend_package_json :: "env \<Rightarrow> command" where
  \<comment> \<open>lines 38 to 59\<close>
  "create_frontend_package_json E =
     if_then_else (test_not_f [''frontend'', ''package.json''])
       [echo E (package @ '' Creating frontend package.json...''),
        mkdir_p_cmd [''frontend''],
        cat_to [''frontend'', ''package.json''] frontend_package_json]
       []"

definition create_backend_package_json :: "env \<Rightarrow> command" where
  \<comment> \<open>lines 61 to 82\<close>
  "create_backend_package_json E =
     if_then_else (test_not_f [''backend'', ''package.json''])
       [echo E (package @ '' Creating backend package.json...''),
        mkdir_p_cmd [''backend''],
        cat_to [''backend'', ''package.json''] backend_package_json]
       []"

definition setup_next_steps :: "env \<Rightarrow> command" where
  \<comment> \<open>lines 84 to 92\<close>
  "setup_next_steps E =
     seq
       [echo E (check_mark @ '' Setup complete!''),
        echo E '''',
        echo E (party_popper @ '' Next steps:''),
        echo E ''1. Edit .env file with your configuration'',
        echo E ''2. Set up your frontend framework in the frontend/ directory'',
        echo E ''3. Set up your backend server in the backend/ directory'',
        echo E (''4. Run '' @ [CHR 0x27] @ ''npm run dev'' @ [CHR 0x27] @ '' to start development servers''),
        echo E '''',
        echo E (books @ '' Check the README.md for detailed instructions'')]"

definition setup_body :: "env \<Rightarrow> command" where
  \<comment> \<open>lines 23 to 92: everything after the version check\<close>
  "setup_body E =
     seq
       [echo_node_v E (check_mark @ '' Node.js version: ''),
        echo E (package @ '' Installing root dependencies...''),
        ext E [''npm'', ''install''],
        create_env_file E,
        create_frontend_package_json E,
        create_backend_package_json E,
        setup_next_steps E]"

definition setup_sh :: "env \<Rightarrow> state \<Rightarrow> nat \<times> state" where
  \<comment> \<open>the whole script; its result is the exit status and the state it leaves\<close>
  "setup_sh E s =
     finish
       (seq
          [set_e,
           echo E (rocket @ '' Setting up Actual Build development environment...''),
           check_node_installed E,
           check_node_version E,
           setup_body E] s)"

section \<open>The Codespace setup script\<close>

definition artist_palette :: string where "artist_palette = [CHR 0xF0, CHR 0x9F, CHR 0x8E, CHR 0xA8]"
definition wrench :: string where "wrench = [CHR 0xF0, CHR 0x9F, CHR 0x94, CHR 0xA7]"
definition gear :: string where "gear = [CHR 0xE2, CHR 0x9A, CHR 0x99, CHR 0xEF, CHR 0xB8, CHR 0x8F]"
definition satellite_antenna :: string where
  "satellite_antenna = [CHR 0xF0, CHR 0x9F, CHR 0x93, CHR 0xA1]"
definition hospital :: string where "hospital = [CHR 0xF0, CHR 0x9F, CHR 0x8F, CHR 0xA5]"

text \<open>The here-documents the script writes, byte for byte.\<close>

definition backend_tsconfig_json :: string where
  \<comment> \<open>lines 66 to 84\<close>
  \<open>backend_tsconfig_json = unlines
  [''{'',
   ''  "compilerOptions": {'',
   ''    "target": "ES2020",'',
   ''    "module": "commonjs",'',
   ''    "lib": ["ES2020"],'',
   ''    "outDir": "./dist",'',
   ''    "rootDir": "./src",'',
   ''    "strict": true,'',
   ''    "esModuleInterop": true,'',
   ''    "skipLibCheck": true,'',
   ''    "forceConsistentCasingInFileNames": true,'',
   ''    "resolveJsonModule": true,'',
   ''    "declaration": true,'',
   ''    "declarationMap": true,'',
   ''    "sourceMap": true'',
   ''  },'',
   ''  "include": ["src/**/*"],'',
   ''  "exclude": ["node_modules", "dist", "**/*.test.ts"]'',
   ''}'']\<close>

definition backend_index_ts :: string where
  \<comment> \<open>lines 90 to 150\<close>
  \<open>backend_index_ts = unlines
  [''import express from '' @ [CHR 0x27] @ ''express'' @ [CHR 0x27] @ '';'',
   ''import cors from '' @ [CHR 0x27] @ ''cors'' @ [CHR 0x27] @ '';'',
   ''import helmet from '' @ [CHR 0x27] @ ''helmet'' @ [CHR 0x27] @ '';'',
   ''import morgan from '' @ [CHR 0x27] @ ''morgan'' @ [CHR 0x27] @ '';'',
   ''import dotenv from '' @ [CHR 0x27] @ ''dotenv'' @ [CHR 0x27] @ '';'',
   '''',
   ''// Load environment variables'',
   ''dotenv.config();'',
   '''',
   ''const app = express();'',
   ''const PORT = process.env.API_PORT || 3001;'',
   '''',
   ''// Middleware'',
   ''app.use(helmet());'',
   ''app.use(cors({'',
   ''  origin: process.env.CORS_ORIGIN || '' @ [CHR 0x27] @ ''http://localhost:3000'' @ [CHR 0x27] @ '','',
   ''  credentials: true'',
   ''}));'',
   ''app.use(morgan('' @ [CHR 0x27] @ ''combined'' @ [CHR 0x27] @ ''));'',
   ''app.use(express.json());'',
   ''app.use(express.urlencoded({ extended: true }));'',
   '''',
   ''// Routes'',
   ''app.get('' @ [CHR 0x27] @ ''/api/health'' @ [CHR 0x27] @ '', (req, res) => {'',
   ''  res.json({ '',
   ''    status: '' @ [CHR 0x27] @ ''OK'' @ [CHR 0x27] @ '', '',
   ''    message: '' @ [CHR 0x27] @ ''Actual Build API is running'' @ [CHR 0x27] @ '','',
   ''    timestamp: new Date().toISOString(),'',
   ''    version: '' @ [CHR 0x27] @ ''1.0.0'' @ [CHR 0x27],
   ''  });'',
   ''});'',
   '''',
   ''app.get('' @ [CHR 0x27] @ ''/api'' @ [CHR 0x27] @ '', (req, res) => {'',
   ''  res.json({ '',
   ''    message: '' @ [CHR 0x27] @ ''Welcome to Actual Build API'' @ [CHR 0x27] @ '','',
   ''    endpoints: ['',
   ''      '' @ [CHR 0x27] @ ''GET /api/health - Health check'' @ [CHR 0x27] @ '','',
   ''      '' @ [CHR 0x27] @ ''GET /api - This endpoint'' @ [CHR 0x27],
   ''    ]'',
   ''  });'',
   ''});'',
   '''',
   ''// Error handling middleware'',
   ''app.use((err: any, req: express.Request, res: express.Response, next: express.NextFunction) => {'',
   ''  console.error(err.stack);'',
   ''  res.status(500).json({ '',
   ''    error: '' @ [CHR 0x27] @ ''Something went wrong!'' @ [CHR 0x27] @ '','',
   ''    message: process.env.NODE_ENV === '' @ [CHR 0x27] @ ''development'' @ [CHR 0x27] @ '' ? err.message : '' @ [CHR 0x27] @ ''Internal server error'' @ [CHR 0x27],
   ''  });'',
   ''});'',
   '''',
   ''// 404 handler'',
   ''app.use('' @ [CHR 0x27] @ ''*'' @ [CHR 0x27] @ '', (req, res) => {'',
   ''  res.status(404).json({ error: '' @ [CHR 0x27] @ ''Route not found'' @ [CHR 0x27] @ '' });'',
   ''});'',
   '''',
   ''app.listen(PORT, () => {'',
   ''  console.log(`'' @ rocket @ '' Server running on port ${PORT}`);'',
   ''  console.log(`'' @ satellite_antenna @ '' API available at http://localhost:${PORT}/api`);'',
   ''  console.log(`'' @ hospital @ '' Health check at http://localhost:${PORT}/api/health`);'',
   ''});'']\<close>

definition shared_tsconfig_json :: string where
  \<comment> \<open>lines 169 to 186\<close>
  \<open>shared_tsconfig_json = unlines
  [''{'',
   ''  "compilerOptions": {'',
   ''    "target": "ES2020",'',
   ''    "module": "commonjs",'',
   ''    "lib": ["ES2020"],'',
   ''    "outDir": "./dist",'',
   ''    "rootDir": "./src",'',
   ''    "strict": true,'',
   ''    "esModuleInterop": true,'',
   ''    "skipLibCheck": true,'',
   ''    "forceConsistentCasingInFileNames": true,'',
   ''    "declaration": true,'',
   ''    "declarationMap": true,'',
   ''    "sourceMap": true'',
   ''  },'',
   ''  "include": ["src/**/*"],'',
   ''  "exclude": ["node_modules", "dist", "**/*.test.ts"]'',
   ''}'']\<close>

definition shared_types_index_ts :: string where
  \<comment> \<open>lines 192 to 216\<close>
  \<open>shared_types_index_ts = unlines
  [''// Shared type definitions for Actual Build'',
   '''',
   ''export interface User {'',
   ''  id: string;'',
   ''  email: string;'',
   ''  name: string;'',
   ''  createdAt: Date;'',
   ''  updatedAt: Date;'',
   ''}'',
   '''',
   ''export interface ApiResponse<T = any> {'',
   ''  success: boolean;'',
   ''  data?: T;'',
   ''  error?: string;'',
   ''  message?: string;'',
   ''}'',
   '''',
   ''export interface PaginatedResponse<T = any> extends ApiResponse<T[]> {'',
   ''  pagination: {'',
   ''    page: number;'',
   ''    limit: number;'',
   ''    total: number;'',
   ''    pages: number;'',
   ''  };'',
   ''}'']\<close>

definition shared_index_ts :: string where
  \<comment> \<open>lines 220 to 222\<close>
  \<open>shared_index_ts = unlines
  [''// Shared utilities and types'',
   ''export * from '' @ [CHR 0x27] @ ''./types'' @ [CHR 0x27] @ '';'',
   ''export * from '' @ [CHR 0x27] @ ''./utils'' @ [CHR 0x27] @ '';'']\<close>

definition shared_utils_index_ts :: string where
  \<comment> \<open>lines 227 to 240\<close>
  \<open>shared_utils_index_ts = unlines
  [''// Shared utility functions'',
   '''',
   ''export const formatDate = (date: Date): string => {'',
   ''  return date.toISOString().split('' @ [CHR 0x27] @ ''T'' @ [CHR 0x27] @ '')[0];'',
   ''};'',
   '''',
   ''export const validateEmail = (email: string): boolean => {'',
   ''  const emailRegex = /^[^'' @ [CHR 0x5C] @ ''s@]+@[^'' @ [CHR 0x5C] @ ''s@]+'' @ [CHR 0x5C] @ ''.[^'' @ [CHR 0x5C] @ ''s@]+$/;'',
   ''  return emailRegex.test(email);'',
   ''};'',
   '''',
   ''export const generateId = (): string => {'',
   ''  return Math.random().toString(36).substr(2, 9);'',
   ''};'']\<close>

definition prettierrc :: string where
  \<comment> \<open>lines 254 to 261\<close>
  \<open>prettierrc = unlines
  [''{'',
   ''  "semi": true,'',
   ''  "trailingComma": "es5",'',
   ''  "singleQuote": true,'',
   ''  "printWidth": 80,'',
   ''  "tabWidth": 2,'',
   ''  "useTabs": false'',
   ''}'']\<close>

definition eslintrc_js :: string where
  \<comment> \<open>lines 268 to 289\<close>
  \<open>eslintrc_js = unlines
  [''module.exports = {'',
   ''  root: true,'',
   ''  env: {'',
   ''    node: true,'',
   ''    es2022: true,'',
   ''  },'',
   ''  extends: ['',
   ''    '' @ [CHR 0x27] @ ''eslint:recommended'' @ [CHR 0x27] @ '','',
   ''    '' @ [CHR 0x27] @ ''@typescript-eslint/recommended'' @ [CHR 0x27] @ '','',
   ''  ],'',
   ''  parser: '' @ [CHR 0x27] @ ''@typescript-eslint/parser'' @ [CHR 0x27] @ '','',
   ''  parserOptions: {'',
   ''    ecmaVersion: 2022,'',
   ''    sourceType: '' @ [CHR 0x27] @ ''module'' @ [CHR 0x27] @ '','',
   ''  },'',
   ''  plugins: ['' @ [CHR 0x27] @ ''@typescript-eslint'' @ [CHR 0x27] @ ''],'',
   ''  rules: {'',
   ''    '' @ [CHR 0x27] @ ''@typescript-eslint/no-unused-vars'' @ [CHR 0x27] @ '': '' @ [CHR 0x27] @ ''error'' @ [CHR 0x27] @ '','',
   ''    '' @ [CHR 0x27] @ ''@typescript-eslint/no-explicit-any'' @ [CHR 0x27] @ '': '' @ [CHR 0x27] @ ''warn'' @ [CHR 0x27] @ '','',
   ''  },'',
   ''  ignorePatterns: ['' @ [CHR 0x27] @ ''dist/'' @ [CHR 0x27] @ '', '' @ [CHR 0x27] @ ''node_modules/'' @ [CHR 0x27] @ '', '' @ [CHR 0x27] @ ''*.js'' @ [CHR 0x27] @ ''],'',
   ''};'']\<close>


definition install_system_dependencies :: "env \<Rightarrow> command" where
  \<comment> \<open>lines 10 to 13\<close>
  "install_system_dependencies E =
     seq
       [echo E (package @ '' Installing system dependencies...''),
        ext E [''sudo'', ''apt-get'', ''update''],
        ext E [''sudo'', ''apt-get'', ''install'', ''-y'', ''postgresql-client'', ''git'', ''curl'']]"

definition set_up_environment_file :: "env \<Rightarrow> command" where
  \<comment> \<open>lines 15 to 22\<close>
  "set_up_environment_file E =
     if_then_else (test_not_f [''.env''])
       [echo E (memo @ '' Creating .env file from template...''),
        cp_cmd [''.env.example''] [''.env''],
        echo E (check_mark @ '' Created .env file (edit with your actual credentials)'')]
       [echo E (check_mark @ '' .env file already exists'')]"

definition install_root_dependencies :: "env \<Rightarrow> command" where
  \<comment> \<open>lines 24 to 26\<close>
  "install_root_dependencies E =
     seq
       [echo E (package @ '' Installing root dependencies...''),
        ext E [''npm'', ''install'']]"

definition set_up_frontend :: "env \<Rightarrow> command" where
  \<comment> \<open>lines 28 to 45\<close>
  \<open>set_up_frontend E =
     seq
       [echo E (artist_palette @ '' Setting up frontend environment...''),
        cd ''frontend'',
        if_then_else (test_not_d [''node_modules''])
          [echo E ''Installing Next.js frontend...'',
           ext E [''npx'', ''create-next-app@latest'', ''.'', ''--typescript'', ''--tailwind'', ''--eslint'', ''--app'', ''--src-dir'', ''--import-alias'', ''@/*'', ''--yes''],
           ext E [''npm'', ''pkg'', ''set'', ''scripts.dev=next dev''],
           ext E [''npm'', ''pkg'', ''set'', ''scripts.build=next build''],
           ext E [''npm'', ''pkg'', ''set'', ''scripts.start=next start''],
           ext E [''npm'', ''pkg'', ''set'', ''scripts.lint=next lint''],
           ext E [''npm'', ''pkg'', ''set'', ''scripts.test=jest''],
           ext E [''npm'', ''install'', ''--save-dev'', ''jest'', ''@testing-library/react'', ''@testing-library/jest-dom'']]
          [],
        cd ''..'']\<close>

definition set_up_backend :: "env \<Rightarrow> command" where
  \<comment> \<open>lines 47 to 153\<close>
  \<open>set_up_backend E =
     seq
       [echo E (wrench @ '' Setting up backend environment...''),
        cd ''backend'',
        if_then_else (test_not_d [''node_modules''])
          [echo E ''Installing Express backend...'',
           ext E [''npm'', ''install'', ''express'', ''cors'', ''helmet'', ''morgan'', ''dotenv'', ''bcryptjs'', ''jsonwebtoken''],
           ext E [''npm'', ''install'', ''--save-dev'', ''nodemon'', ''@types/node'', ''@types/express'', ''@types/cors'', ''@types/bcryptjs'', ''@types/jsonwebtoken'', ''typescript'', ''ts-node'', ''eslint'', ''@typescript-eslint/parser'', ''@typescript-eslint/eslint-plugin'', ''prettier''],
           ext E [''npm'', ''pkg'', ''set'', ''scripts.dev=nodemon src/index.ts''],
           ext E [''npm'', ''pkg'', ''set'', ''scripts.start=node dist/index.js''],
           ext E [''npm'', ''pkg'', ''set'', ''scripts.build=tsc''],
           ext E [''npm'', ''pkg'', ''set'', ''scripts.test=jest''],
           ext E [''npm'', ''pkg'', ''set'', ''scripts.lint=eslint src --ext .ts,.js''],
           ext E [''npm'', ''pkg'', ''set'', ''main=dist/index.js''],
           echo E ''Creating TypeScript configuration...'',
           cat_to [''tsconfig.json''] backend_tsconfig_json,
           mkdir_p_cmd [''src''],
           cat_to [''src'', ''index.ts''] backend_index_ts]
          [],
        cd ''..'']\<close>

definition set_up_shared :: "env \<Rightarrow> command" where
  \<comment> \<open>lines 155 to 246\<close>
  \<open>set_up_shared E =
     seq
       [echo E (wrench @ '' Setting up shared utilities...''),
        cd ''shared'',
        if_then_else (test_not_f [''package.json''])
          [ext E [''npm'', ''init'', ''-y''],
           ext E [''npm'', ''pkg'', ''set'', ''name=actual-build-shared''],
           ext E [''npm'', ''pkg'', ''set'', ''description=Shared utilities and types for Actual Build''],
           ext E [''npm'', ''pkg'', ''set'', ''main=dist/index.js''],
           ext E [''npm'', ''pkg'', ''set'', ''types=dist/index.d.ts''],
           ext E [''npm'', ''install'', ''--save-dev'', ''typescript'', ''@types/node''],
           cat_to [''tsconfig.json''] shared_tsconfig_json,
           mkdir_p_cmd [''src'', ''types''],
           cat_to [''src'', ''types'', ''index.ts''] shared_types_index_ts,
           cat_to [''src'', ''index.ts''] shared_index_ts,
           mkdir_p_cmd [''src'', ''utils''],
           cat_to [''src'', ''utils'', ''index.ts''] shared_utils_index_ts,
           ext E [''npm'', ''pkg'', ''set'', ''scripts.build=tsc''],
           ext E [''npm'', ''pkg'', ''set'', ''scripts.dev=tsc --watch'']]
          [],
        cd ''..'']\<close>

definition create_development_configuration :: "env \<Rightarrow> command" where
  \<comment> \<open>lines 248 to 291\<close>
  "create_development_configuration E =
     seq
       [echo E (gear @ '' Creating development configuration...''),
        if_then_else (test_not_f [''.prettierrc''])
          [cat_to [''.prettierrc''] prettierrc]
          [],
        if_then_else (test_not_f [''.eslintrc.js''])
          [cat_to [''.eslintrc.js''] eslintrc_js]
          []]"

definition codespace_next_steps :: "env \<Rightarrow> command" where
  \<comment> \<open>lines 293 to 311\<close>
  "codespace_next_steps E =
     seq
       [echo E (check_mark @ '' Codespace setup complete!''),
        echo E '''',
        echo E (party_popper @ '' Your development environment is ready!''),
        echo E '''',
        echo E (memo @ '' Next steps:''),
        echo E ''1. Edit .env file with your actual configuration'',
        echo E (''2. Run '' @ [CHR 0x27] @ ''npm run dev'' @ [CHR 0x27] @ '' to start both frontend and backend''),
        echo E ''3. Frontend will be available at http://localhost:3000'',
        echo E ''4. Backend API will be available at http://localhost:3001'',
        echo E '''',
        echo E (wrench @ '' Available commands:''),
        echo E ''  npm run dev          - Start both frontend and backend'',
        echo E ''  npm run dev:frontend - Start only frontend'',
        echo E ''  npm run dev:backend  - Start only backend'',
        echo E ''  npm run build        - Build both applications'',
        echo E ''  npm run test         - Run all tests'',
        echo E ''  npm run lint         - Lint all code'',
        echo E '''',
        echo E (books @ '' Check the docs/ directory for detailed guides'')]"

definition codespace_setup :: "env \<Rightarrow> state \<Rightarrow> nat \<times> state" where
  \<comment> \<open>the whole script; its result is the exit status and the state it leaves\<close>
  "codespace_setup E s =
     finish
       (seq
          [set_e,
           echo E (rocket @ '' Setting up Actual Build Codespace...''),
           install_system_dependencies E,
           set_up_environment_file E,
           install_root_dependencies E,
           set_up_frontend E,
           set_up_backend E,
           set_up_shared E,
           create_development_configuration E,
           codespace_next_steps E] s)"

section \<open>The root layout component\<close>

text \<open>
  \<^verbatim>\<open>frontend/src/app/layout.tsx\<close>. A \<^verbatim>\<open>React.ReactNode\<close> is nothing, a boolean, a text, a
  number, a sequence of nodes or an element; an element has its type, its properties
  other than \<^verbatim>\<open>children\<close>, and its children.
\<close>

datatype react_node =
    Undefined
  | Null
  | Boolean bool
  | Text string
  | Number int
  | Nodes "react_node list"
  | Element string "(string \<times> string) list" react_node

record layout_props =
  children :: react_node

definition RootLayout :: "layout_props \<Rightarrow> react_node" where
  "RootLayout props =
     Element ''html'' [(''lang'', ''en'')]
       (Element ''body'' [(''className'', ''antialiased'')] (children props))"

fun element_type :: "react_node \<Rightarrow> string option" where
  "element_type (Element t ps c) = Some t"
| "element_type _ = None"

fun element_props :: "react_node \<Rightarrow> (string \<times> string) list" where
  "element_props (Element t ps c) = ps"
| "element_props _ = []"

fun element_children :: "react_node \<Rightarrow> react_node" where
  "element_children (Element t ps c) = c"
| "element_children _ = Undefined"

section \<open>Vocabulary of the properties\<close>

fun decimal :: "nat \<Rightarrow> string" where
  \<comment> \<open>a version component as Node.js prints it\<close>
  "decimal n = (if n < 10 then [char_of (48 + n)] else decimal (n div 10) @ [char_of (48 + n mod 10)])"

declare decimal.simps [simp del]

fun exit_status :: "outcome \<Rightarrow> nat option" where
  "exit_status (Running s) = None"
| "exit_status (Exited rc s) = Some rc"

text \<open>
  Example inputs: a fresh checkout of the repository, started in its root with no
  arguments by a shell in its initial state, and machines with Node.js 20, Node.js 16
  and no Node.js, on which the standard output can be written and the package managers
  succeed and leave the files alone.
\<close>

definition fresh_checkout :: state where
  "fresh_checkout =
     \<lparr>files = Map.empty
        ([''.env.example''] \<mapsto> File ''NODE_ENV=development'',
         [''package.json''] \<mapsto> File ''{}'',
         [''frontend''] \<mapsto> Dir,
         [''backend''] \<mapsto> Dir,
         [''shared''] \<mapsto> Dir),
      cwd = [], vars = Map.empty, params = [], stdout = [], trace = [],
      errexit = False, status = 0\<rparr>"

definition node20 :: env where
  "node20 =
     \<lparr>node_found = True, node_v = (0, ''v20.11.1'' @ [CHR 0x0A]), echo_status = 0,
      run_ext = (\<lambda>ws d f. (0, f))\<rparr>"

definition node16 :: env where
  "node16 =
     \<lparr>node_found = True, node_v = (0, ''v16.20.2'' @ [CHR 0x0A]), echo_status = 0,
      run_ext = (\<lambda>ws d f. (0, f))\<rparr>"

definition no_node :: env where
  "no_node =
     \<lparr>node_found = False, node_v = (127, ''''), echo_status = 0, run_ext = (\<lambda>ws d f. (0, f))\<rparr>"

text \<open>
  \<^verbatim>\<open>node -v\<close> reports a version when it prints the one line \<^verbatim>\<open>v<major>.<rest>\<close>, ended by
  a newline or by the end of the output: the rest holds the minor version, the patch
  version and any suffix, and no newline.
\<close>

definition node_reports :: "env \<Rightarrow> nat \<Rightarrow> string \<Rightarrow> bool" where
  "node_reports E major rest =
     (CHR 0x0A \<notin> set rest
      \<and> (snd (node_v E) = ''v'' @ decimal major @ ''.'' @ rest @ [CHR 0x0A]
          \<or> snd (node_v E) = ''v'' @ decimal major @ ''.'' @ rest))"

text \<open>
  The version check of \<^verbatim>\<open>setup.sh\<close> fails when the condition of line 11 holds
  (\<^verbatim>\<open>command -v node\<close> finds nothing) or the condition of line 18 does (the value of
  \<^verbatim>\<open>NODE_VERSION\<close> is an integer below 18).
\<close>

definition version_check_fails :: "env \<Rightarrow> bool" where
  "version_check_fails E =
     (\<not> node_found E
      \<or> (case legal_number (node_version E) of None \<Rightarrow> False | Some i \<Rightarrow> i < 18))"

text \<open>
  Reading the trace. A checked command that failed is one in plain position with a
  non-zero status. A run respects \<^verbatim>\<open>set -e\<close> when no checked command failed before the
  last command of the run, and the script's status is that of a failed last command, or
  0 when the last command did not fail.
\<close>

fun state_of :: "outcome \<Rightarrow> state" where
  "state_of (Running s) = s"
| "state_of (Exited rc s) = s"

definition failed_checked :: "entry \<Rightarrow> bool" where
  "failed_checked e = (fst e = Checked \<and> snd (snd e) \<noteq> 0)"

definition errexit_respected :: "nat \<times> state \<Rightarrow> bool" where
  "errexit_respected r =
     (let t = trace (snd r)
      in \<not> list_ex failed_checked (butlast t)
         \<and> fst r = (if t \<noteq> [] \<and> failed_checked (last t) then snd (snd (last t)) else 0))"

text \<open>
  The programs the scripts call. The package managers are the ones that fetch from
  package repositories over the network: \<^verbatim>\<open>apt-get update\<close> and \<^verbatim>\<open>apt-get install\<close>
  from the distribution's archives, \<^verbatim>\<open>npm install\<close> and \<^verbatim>\<open>npx create-next-app@latest\<close> from
  the npm registry.
\<close>

definition package_manager :: "string list \<Rightarrow> bool" where
  "package_manager ws =
     (take 2 ws = [''sudo'', ''apt-get''] \<or> take 1 ws = [''npm''] \<or> take 1 ws = [''npx''])"

definition script_command :: "string list \<Rightarrow> bool" where
  "script_command ws =
     (take 1 ws \<in> set [[''echo''], [''exit''], [''command''], [''node''], [''cut''], [''[''],
                        [''cd''], [''cp''], [''mkdir''], [''cat'']]
      \<or> package_manager ws)"

definition downloads :: "string list \<Rightarrow> bool" where
  "downloads ws =
     (take 3 ws = [''sudo'', ''apt-get'', ''update'']
      \<or> take 3 ws = [''sudo'', ''apt-get'', ''install'']
      \<or> take 2 ws = [''npm'', ''install'']
      \<or> take 1 ws = [''npx''])"

text \<open>
  The commands by which \<^verbatim>\<open>setup.sh\<close> probes for Node.js and its version: \<^verbatim>\<open>command -v\<close>,
  \<^verbatim>\<open>node\<close>, \<^verbatim>\<open>cut\<close>, a numeric comparison \<^verbatim>\<open>-lt\<close>, and the \<^verbatim>\<open>exit\<close> that follows them.
  The calls of the package managers in a trace, in the order they were made.
\<close>

definition version_probe :: "string list \<Rightarrow> bool" where
  "version_probe ws =
     (take 1 ws \<in> set [[''command''], [''node''], [''cut''], [''exit'']] \<or> ''-lt'' \<in> set ws)"

definition package_installs :: "entry list \<Rightarrow> string list list" where
  "package_installs t = filter package_manager (map (\<lambda>e. fst (snd e)) t)"

definition is_echo :: "entry \<Rightarrow> bool" where
  "is_echo e = (take 1 (fst (snd e)) = [''echo''])"

text \<open>
  The invariant behind the trace properties: with \<open>errexit\<close> on, a command leaves the
  option on and only appends to the trace; what it appends are words the predicate
  accepts; no checked command in it failed, except that an ended script has the failed
  command, with the script's status, last.
\<close>

definition quiet :: "(string list \<Rightarrow> bool) \<Rightarrow> entry list \<Rightarrow> bool" where
  "quiet W t = list_all (\<lambda>e. W (fst (snd e)) \<and> \<not> failed_checked e) t"

definition traced :: "(string list \<Rightarrow> bool) \<Rightarrow> command \<Rightarrow> bool" where
  "traced W c =
     (\<forall>s. errexit s \<longrightarrow>
        (case c s of
           Running s' \<Rightarrow> errexit s' \<and> (\<exists>t. trace s' = trace s @ t \<and> quiet W t)
         | Exited rc s' \<Rightarrow>
             rc \<noteq> 0 \<and> errexit s'
             \<and> (\<exists>t ws. trace s' = trace s @ t @ [(Checked, ws, rc)] \<and> W ws \<and> quiet W t)))"

definition traced_test :: "(string list \<Rightarrow> bool) \<Rightarrow> (state \<Rightarrow> bool \<times> state) \<Rightarrow> bool" where
  "traced_test W b =
     (\<forall>s. errexit (snd (b s)) = errexit s
        \<and> (\<exists>ws rc. W ws \<and> trace (snd (b s)) = trace s @ [(Condition, ws, rc)]))"

text \<open>
  A command makes given calls of the package managers when, with \<open>errexit\<close> on, a run of
  it that goes on has made exactly these calls, and a run that ends the script has made
  the first ones of them.
\<close>

definition calls :: "string list list \<Rightarrow> command \<Rightarrow> bool" where
  "calls ps c =
     (\<forall>s. errexit s \<longrightarrow>
        errexit (state_of (c s))
        \<and> (\<exists>t. trace (state_of (c s)) = trace s @ t
               \<and> (case c s of
                     Running s' \<Rightarrow> package_installs t = ps
                   | Exited rc s' \<Rightarrow>
                       take (length (package_installs t)) ps = package_installs t)))"

text \<open>
  The command-line arguments are the shell's positional parameters. A command ignores
  them when running it with other arguments gives the same outcome, the arguments aside.
  What can be observed of a run is its exit status, the files, the directory it ends in,
  what it printed and what it ran.
\<close>

fun with_params :: "string list \<Rightarrow> outcome \<Rightarrow> outcome" where
  "with_params a (Running s) = Running (s\<lparr>params := a\<rparr>)"
| "with_params a (Exited rc s) = Exited rc (s\<lparr>params := a\<rparr>)"

definition ignores_params :: "command \<Rightarrow> bool" where
  "ignores_params c = (\<forall>s a. c (s\<lparr>params := a\<rparr>) = with_params a (c s))"

definition test_ignores_params :: "(state \<Rightarrow> bool \<times> state) \<Rightarrow> bool" where
  "test_ignores_params b = (\<forall>s a. b (s\<lparr>params := a\<rparr>) = (fst (b s), (snd (b s))\<lparr>params := a\<rparr>))"

definition observable :: "nat \<times> state \<Rightarrow> nat \<times> fsys \<times> path \<times> string list \<times> entry list" where
  "observable r = (fst r, files (snd r), cwd (snd r), stdout (snd r), trace (snd r))"

text \<open>
  Reading the file system. The commands that write files are \<^verbatim>\<open>cp\<close>, \<^verbatim>\<open>mkdir\<close> and
  \<^verbatim>\<open>cat >\<close>. A command runs from a state to given files when it goes on to the next
  command, leaves those files, stays in its directory, leaves \<open>errexit\<close> as it was, and
  runs only commands the predicate accepts. The \<^verbatim>\<open>.env\<close> step has nothing left to do when \<^verbatim>\<open>.env\<close> is a
  regular file, or is a directory that already holds the copy of \<^verbatim>\<open>.env.example\<close>.
\<close>

definition writes :: "string list \<Rightarrow> bool" where
  "writes ws = (take 1 ws \<in> set [[''cp''], [''mkdir''], [''cat'']])"

definition runs_with :: "(string list \<Rightarrow> bool) \<Rightarrow> command \<Rightarrow> state \<Rightarrow> fsys \<Rightarrow> bool" where
  "runs_with W c s f =
     (\<exists>s' t. c s = Running s' \<and> files s' = f \<and> cwd s' = cwd s \<and> errexit s' = errexit s
        \<and> trace s' = trace s @ t \<and> list_all (\<lambda>e. W (fst (snd e))) t)"

definition keeps_files :: "command \<Rightarrow> bool" where
  "keeps_files c =
     (\<forall>s. files (state_of (c s)) = files s \<and> cwd (state_of (c s)) = cwd s
        \<and> errexit (state_of (c s)) = errexit s)"







definition env_settled :: "path \<Rightarrow> fsys \<Rightarrow> bool" where
  "env_settled d f =
     (is_file f (d @ [''.env''])
      \<or> (f (d @ [''.env'']) = Some Dir
          \<and> (case f (d @ [''.env.example'']) of
                Some (File c) \<Rightarrow> f (d @ [''.env'', ''.env.example'']) = Some (File c)
              | _ \<Rightarrow> False)))"

text \<open>
  More example inputs: a machine on which \<^verbatim>\<open>node\<close> is found but \<^verbatim>\<open>node -v\<close> fails and
  prints nothing (as the shim of a version manager with no version selected does); a
  machine on which \<^verbatim>\<open>node -v\<close> prints a second line after the version; a
  machine without a network, on which every call of a package manager fails with status
  100; a
  machine on which \<^verbatim>\<open>npm install\<close> appends to \<^verbatim>\<open>install.log\<close> on every run (as a
  \<^verbatim>\<open>postinstall\<close> script of \<^verbatim>\<open>package.json\<close> may); and a checkout whose \<^verbatim>\<open>.env.example\<close> is
  missing.
\<close>

definition failing_node :: env where
  "failing_node =
     \<lparr>node_found = True, node_v = (1, ''''), echo_status = 0, run_ext = (\<lambda>ws d f. (0, f))\<rparr>"

definition node16_two_lines :: env where
  "node16_two_lines =
     \<lparr>node_found = True, node_v = (0, ''v16.20.2'' @ [CHR 0x0A] @ ''note'' @ [CHR 0x0A]),
      echo_status = 0, run_ext = (\<lambda>ws d f. (0, f))\<rparr>"

definition offline :: env where
  "offline =
     \<lparr>node_found = True, node_v = (0, ''v20.11.1'' @ [CHR 0x0A]), echo_status = 0,
      run_ext = (\<lambda>ws d f. if package_manager ws then (100, f) else (0, f))\<rparr>"

definition npm_logging :: env where
  "npm_logging =
     \<lparr>node_found = True, node_v = (0, ''v20.11.1'' @ [CHR 0x0A]), echo_status = 0,
      run_ext = (\<lambda>ws d f.
        if ws = [''npm'', ''install'']
        then (0, f(d @ [''install.log''] \<mapsto>
                File ((case f (d @ [''install.log'']) of Some (File c) \<Rightarrow> c | _ \<Rightarrow> []) @ ''installed'')))
        else (0, f))\<rparr>"

definition checkout_without_template :: state where
  "checkout_without_template =
     \<lparr>files = Map.empty
        ([''package.json''] \<mapsto> File ''{}'',
         [''frontend''] \<mapsto> Dir,
         [''backend''] \<mapsto> Dir,
         [''shared''] \<mapsto> Dir),
      cwd = [], vars = Map.empty, params = [], stdout = [], trace = [],
      errexit = False, status = 0\<rparr>"

section \<open>Reading the major version\<close>

lemma is_digit_char_of: "d < 10 \<Longrightarrow> is_digit (char_of (48 + d :: nat))"
  by (simp add: is_digit_def)

lemma decimal_digits: "list_all is_digit (decimal n)"
proof (induction n rule: decimal.induct)
  case (1 n)
  show ?case
  proof (cases "n < 10")
    case True
    then show ?thesis by (subst decimal.simps) (simp add: is_digit_char_of)
  next
    case False
    with 1 show ?thesis by (subst decimal.simps) (simp add: is_digit_char_of)
  qed
qed

lemma decimal_not_Nil: "decimal n \<noteq> []"
  by (subst decimal.simps) simp

lemma digits_val_snoc: "digits_val a (xs @ [c]) = 10 * digits_val a xs + ((of_char c :: nat) - 48)"
  by (induction xs arbitrary: a) simp_all

lemma digits_val_decimal: "digits_val 0 (decimal n) = n"
proof (induction n rule: decimal.induct)
  case (1 n)
  show ?case
  proof (cases "n < 10")
    case True
    then show ?thesis by (subst decimal.simps) simp
  next
    case False
    with 1 have "digits_val 0 (decimal (n div 10)) = n div 10" by simp
    with False show ?thesis
      by (subst decimal.simps) (simp add: digits_val_snoc)
  qed
qed

lemma is_digit_not_space: "is_digit c \<Longrightarrow> \<not> is_space c"
  by (auto simp: is_digit_def is_space_def)

lemma is_digit_not_sign: "is_digit c \<Longrightarrow> c \<noteq> CHR ''-'' \<and> c \<noteq> CHR ''+'' \<and> c \<noteq> CHR ''v'' \<and> c \<noteq> CHR ''.''"
  by (auto simp: is_digit_def)

lemma legal_number_digits:
  assumes "list_all is_digit ds" "ds \<noteq> []"
  shows "legal_number ds = (if digits_val 0 ds < 2 ^ 63 then Some (int (digits_val 0 ds)) else None)"
proof -
  from assms obtain c cs where ds: "ds = c # cs" by (cases ds) auto
  with assms have c: "is_digit c" by simp
  have tw: "takeWhile is_digit ds = ds" and dw: "dropWhile is_digit ds = []"
    using assms(1) by (simp_all add: list_all_iff)
  have sp: "dropWhile is_space ds = ds"
    using c ds by (simp add: is_digit_not_space)
  have hd: "hd ds \<noteq> CHR ''-''" "hd ds \<noteq> CHR ''+''"
    using c ds is_digit_not_sign by auto
  show ?thesis
    unfolding legal_number_def Let_def sp using hd assms(2)
    by (simp add: tw dw)
qed

lemma legal_number_decimal:
  "legal_number (decimal n) = (if n < 2 ^ 63 then Some (int n) else None)"
  by (simp add: legal_number_digits decimal_digits decimal_not_Nil digits_val_decimal)

lemma is_digit_not_newline: "is_digit c \<Longrightarrow> c \<noteq> CHR 0x0A \<and> c \<noteq> CHR 0x00"
  by (auto simp: is_digit_def)

lemma cut_major_line:
  assumes "list_all is_digit ds"
  shows "cut_field (CHR ''v'') 2 (''v'' @ ds @ ''.'' @ rest)
           = ds @ ''.'' @ takeWhile (\<lambda>c. c \<noteq> CHR ''v'') rest"
    and "cut_field (CHR ''.'') 1 (ds @ ''.'' @ rest') = ds"
proof -
  have nv: "\<forall>c\<in>set ds. c \<noteq> CHR ''v''" and nd: "\<forall>c\<in>set ds. c \<noteq> CHR ''.''"
    using assms is_digit_not_sign by (auto simp: list_all_iff)
  have "cut_field (CHR ''v'') 2 (''v'' @ ds @ ''.'' @ rest)
        = takeWhile (\<lambda>c. c \<noteq> CHR ''v'') (ds @ ''.'' @ rest)"
    by (simp add: cut_field_def numeral_2_eq_2)
  also have "\<dots> = ds @ ''.'' @ takeWhile (\<lambda>c. c \<noteq> CHR ''v'') rest"
    using nv by simp
  finally show "cut_field (CHR ''v'') 2 (''v'' @ ds @ ''.'' @ rest)
        = ds @ ''.'' @ takeWhile (\<lambda>c. c \<noteq> CHR ''v'') rest" .
  show "cut_field (CHR ''.'') 1 (ds @ ''.'' @ rest') = ds"
    using nd by (simp add: cut_field_def)
qed

lemma lines_of_line: "CHR 0x0A \<notin> set l \<Longrightarrow> lines_of (l @ [CHR 0x0A]) = [l]"
  by (induction l) auto

lemma lines_of_last_line: "CHR 0x0A \<notin> set l \<Longrightarrow> l \<noteq> [] \<Longrightarrow> lines_of l = [l]"
proof (induction l)
  case Nil
  then show ?case by simp
next
  case (Cons c l)
  then show ?case by (cases l) auto
qed

lemma cut_cmd_line: "CHR 0x0A \<notin> set l \<Longrightarrow> cut_cmd d n (l @ [CHR 0x0A]) = cut_field d n l @ [CHR 0x0A]"
  by (simp add: cut_cmd_def lines_of_line)

lemma cut_cmd_last_line:
  "CHR 0x0A \<notin> set l \<Longrightarrow> l \<noteq> [] \<Longrightarrow> cut_cmd d n l = cut_field d n l @ [CHR 0x0A]"
  by (simp add: cut_cmd_def lines_of_last_line)

lemma command_subst_line:
  assumes "CHR 0x0A \<notin> set l" "CHR 0x00 \<notin> set l"
  shows "command_subst (l @ [CHR 0x0A]) = l"
proof -
  have f: "filter (\<lambda>c. c \<noteq> CHR 0x00) l = l"
    using assms(2) by (induction l) auto
  have "CHR 0x0A \<notin> set (rev l)"
    using assms(1) by simp
  then have "dropWhile (\<lambda>c. c = CHR 0x0A) (rev l) = rev l"
    by (cases "rev l") auto
  then show ?thesis
    by (simp add: command_subst_def f)
qed

lemma node_version_value:
  assumes "node_reports E major rest"
  shows "node_version E = decimal major"
proof -
  let ?ds = "decimal major"
  let ?l1 = "''v'' @ ?ds @ ''.'' @ rest"
  let ?l2 = "?ds @ ''.'' @ takeWhile (\<lambda>c. c \<noteq> CHR ''v'') rest"
  have rest: "CHR 0x0A \<notin> set rest"
    and out: "snd (node_v E) = ?l1 @ [CHR 0x0A] \<or> snd (node_v E) = ?l1"
    using assms by (simp_all add: node_reports_def)
  have ds: "CHR 0x0A \<notin> set ?ds" "CHR 0x00 \<notin> set ?ds"
    using decimal_digits [of major] is_digit_not_newline by (auto simp: list_all_iff)
  have l1: "CHR 0x0A \<notin> set ?l1" "?l1 \<noteq> []"
    using ds rest by simp_all
  have l2: "CHR 0x0A \<notin> set ?l2"
    using ds rest by (auto dest: set_takeWhileD)
  have "cut_cmd (CHR ''v'') 2 (?l1 @ [CHR 0x0A]) = ?l2 @ [CHR 0x0A]"
    unfolding cut_cmd_line [OF l1(1)] cut_major_line(1) [OF decimal_digits] ..
  moreover have "cut_cmd (CHR ''v'') 2 ?l1 = ?l2 @ [CHR 0x0A]"
    unfolding cut_cmd_last_line [OF l1] cut_major_line(1) [OF decimal_digits] ..
  ultimately have 1: "cut_cmd (CHR ''v'') 2 (snd (node_v E)) = ?l2 @ [CHR 0x0A]"
    using out by auto
  have 2: "cut_cmd (CHR ''.'') 1 (?l2 @ [CHR 0x0A]) = ?ds @ [CHR 0x0A]"
    unfolding cut_cmd_line [OF l2] cut_major_line(2) [OF decimal_digits] ..
  show ?thesis
    unfolding node_version_def 1 2 by (rule command_subst_line [OF ds])
qed

text \<open>
  \<^verbatim>\<open>cut\<close> works line by line: where \<^verbatim>\<open>node -v\<close> prints a second line, \<^verbatim>\<open>NODE_VERSION\<close>
  holds two lines, the test of line 18 exits with status 2, and the check is passed
  whatever the version is.
\<close>

lemma node_version_two_lines:
  "node_version node16_two_lines = ''16'' @ [CHR 0x0A] @ ''note''
   \<and> exit_status (check_node_version node16_two_lines fresh_checkout) = None
   \<and> (Condition, [''['', ''16'' @ [CHR 0x0A] @ ''note'', ''-lt'', ''18'', '']''], 2)
       \<in> set (trace (state_of (check_node_version node16_two_lines fresh_checkout)))"
  by code_simp

lemma decimal_20: "decimal 20 = ''20''"
  by code_simp

lemma decimal_16: "decimal 16 = ''16''"
  by code_simp

lemma node20_reports: "node_reports node20 20 ''11.1''"
  by (simp add: node_reports_def node20_def decimal_20)

lemma node16_reports: "node_reports node16 16 ''20.2''"
  by (simp add: node_reports_def node16_def decimal_16)

text \<open>
  C9. The version check looks at the major version only: when \<^verbatim>\<open>node -v\<close> prints the one
  line \<^verbatim>\<open>v<major>.<rest>\<close>, whatever the minor version, patch version and suffix in the
  rest (a newline apart), the check at lines 17 to 21 lets the script go on if the major version is at
  least 18 and ends it if the major version is below 18: with status 1, or, under
  \<^verbatim>\<open>set -e\<close>, with the status of the \<^verbatim>\<open>echo\<close> of the message when that \<^verbatim>\<open>echo\<close> fails.
\<close>

theorem check_node_version_major_only:
  assumes "node_reports E major rest"
  shows "exit_status (check_node_version E s)
         = (if major < 18
            then Some (if echo_status E \<noteq> 0 \<and> errexit s then echo_status E else 1)
            else None)"
  using node_version_value [OF assms]
  by (simp add: check_node_version_def assign_node_version_def if_then_else_def Let_def
      test_lt_def legal_number_decimal log_def echo_node_v_def echo_def simple_def exit_cmd_def)

theorem check_node_version_major_only_witness:
  "node_reports node20 20 ''11.1''
   \<and> exit_status (check_node_version node20 fresh_checkout) = None
   \<and> node_reports node16 16 ''20.2''
   \<and> exit_status (check_node_version node16 fresh_checkout) = Some 1"
  using check_node_version_major_only [OF node20_reports, of fresh_checkout]
    check_node_version_major_only [OF node16_reports, of fresh_checkout]
    node20_reports node16_reports
  by (simp add: node16_def)

section \<open>What the scripts run: the trace\<close>

lemma failed_checked_simp [simp]: "failed_checked (k, ws, rc) = (k = Checked \<and> rc \<noteq> 0)"
  by (simp add: failed_checked_def)

lemma quiet_Nil [simp]: "quiet W []"
  by (simp add: quiet_def)

lemma quiet_append [simp]: "quiet W (t @ u) = (quiet W t \<and> quiet W u)"
  by (simp add: quiet_def)

lemma quiet_Cons [simp]:
  "quiet W (e # t) = (W (fst (snd e)) \<and> \<not> failed_checked e \<and> quiet W t)"
  by (simp add: quiet_def)

lemma quiet_single: "quiet W [(k, ws, rc)] = (W ws \<and> (k = Checked \<longrightarrow> rc = 0))"
  by (auto simp: quiet_def failed_checked_def)

lemma traced_simple:
  assumes "W ws" and "\<And>s. trace (snd (sem s)) = trace s \<and> errexit (snd (sem s)) = errexit s"
  shows "traced W (simple ws sem)"
  unfolding traced_def
proof (intro allI impI)
  fix s :: state
  assume on: "errexit s"
  obtain rc s' where sem: "sem s = (rc, s')" by (cases "sem s")
  with assms(2) [of s] on have tr: "trace s' = trace s" and on': "errexit s'" by simp_all
  show "case simple ws sem s of
          Running s' \<Rightarrow> errexit s' \<and> (\<exists>t. trace s' = trace s @ t \<and> quiet W t)
        | Exited rc s' \<Rightarrow> rc \<noteq> 0 \<and> errexit s'
            \<and> (\<exists>t ws. trace s' = trace s @ t @ [(Checked, ws, rc)] \<and> W ws \<and> quiet W t)"
  proof (cases "rc = 0")
    case True
    with sem tr on' assms(1) show ?thesis
      by (simp add: simple_def log_def quiet_single)
  next
    case False
    have "trace (log Checked ws rc s') = trace s @ [] @ [(Checked, ws, rc)]"
      using tr by (simp add: log_def)
    with False sem on' assms(1) show ?thesis
      by (auto simp: simple_def log_def intro!: exI [of _ "[]"] exI [of _ ws])
  qed
qed

lemma traced_echo: "W [''echo'', t] \<Longrightarrow> traced W (echo E t)"
  unfolding echo_def by (rule traced_simple) simp_all

lemma traced_ext: "W ws \<Longrightarrow> traced W (ext E ws)"
  unfolding ext_def by (rule traced_simple) (simp_all split: prod.split)

lemma traced_cp_cmd: "W [''cp'', path_str a, path_str b] \<Longrightarrow> traced W (cp_cmd a b)"
  unfolding cp_cmd_def by (rule traced_simple) (simp_all split: prod.split)

lemma traced_mkdir_p_cmd: "W [''mkdir'', ''-p'', path_str p] \<Longrightarrow> traced W (mkdir_p_cmd p)"
  unfolding mkdir_p_cmd_def by (rule traced_simple) (simp_all split: prod.split)

lemma traced_cat_to: "W [''cat'', ''>'', path_str p] \<Longrightarrow> traced W (cat_to p doc)"
  unfolding cat_to_def by (rule traced_simple) (simp_all split: prod.split)

lemma traced_cd: "W [''cd'', d] \<Longrightarrow> traced W (cd d)"
  unfolding cd_def by (rule traced_simple) simp_all

lemma traced_exit_cmd: "W [''exit'', w] \<Longrightarrow> n \<noteq> 0 \<Longrightarrow> traced W (exit_cmd n w)"
  by (auto simp: traced_def exit_cmd_def log_def intro!: exI [of _ "[]"])

lemma traced_assign_node_version:
  "W [''node'', ''-v''] \<Longrightarrow> W [''cut'', ''-dv'', ''-f2''] \<Longrightarrow> W [''cut'', ''-d.'', ''-f1'']
   \<Longrightarrow> traced W (assign_node_version E)"
  by (simp add: traced_def assign_node_version_def Let_def log_def quiet_def failed_checked_def)

lemma traced_echo_node_v:
  assumes "W [''node'', ''-v'']" and "\<And>t. W [''echo'', t]"
  shows "traced W (echo_node_v E t)"
  using assms
  by (simp add: traced_def echo_node_v_def echo_def simple_def log_def quiet_def failed_checked_def)

lemma traced_Running:
  assumes "traced W c" "errexit s" "c s = Running s'"
  obtains t where "errexit s'" "trace s' = trace s @ t" "quiet W t"
  using assms by (auto simp: traced_def dest!: spec [of _ s])

lemma traced_Exited:
  assumes "traced W c" "errexit s" "c s = Exited rc s'"
  obtains t ws where "rc \<noteq> 0" "errexit s'" "trace s' = trace s @ t @ [(Checked, ws, rc)]" "W ws"
    "quiet W t"
  using assms by (auto simp: traced_def dest!: spec [of _ s])

lemma traced_seq: "list_all (traced W) cs \<Longrightarrow> traced W (seq cs)"
proof (induction cs)
  case Nil
  show ?case by (simp add: traced_def)
next
  case (Cons c cs)
  then have c: "traced W c" and cs: "traced W (seq cs)" by simp_all
  show ?case
    unfolding traced_def
  proof (intro allI impI)
    fix s :: state
    assume on: "errexit s"
    show "case seq (c # cs) s of
            Running s' \<Rightarrow> errexit s' \<and> (\<exists>t. trace s' = trace s @ t \<and> quiet W t)
          | Exited rc s' \<Rightarrow> rc \<noteq> 0 \<and> errexit s'
              \<and> (\<exists>t ws. trace s' = trace s @ t @ [(Checked, ws, rc)] \<and> W ws \<and> quiet W t)"
    proof (cases "c s")
      case (Running s1)
      from traced_Running [OF c on Running] obtain t1 where
        t1: "errexit s1" "trace s1 = trace s @ t1" "quiet W t1" .
      show ?thesis
      proof (cases "seq cs s1")
        case r2: (Running s2)
        from traced_Running [OF cs t1(1) r2] obtain t2 where
          "errexit s2" "trace s2 = trace s1 @ t2" "quiet W t2" .
        with t1 Running r2 show ?thesis by simp
      next
        case e2: (Exited rc s2)
        from traced_Exited [OF cs t1(1) e2] obtain t2 ws where
          "rc \<noteq> 0" "errexit s2" "trace s2 = trace s1 @ t2 @ [(Checked, ws, rc)]" "W ws" "quiet W t2" .
        with t1 Running e2 show ?thesis
          by (auto intro!: exI [of _ "t1 @ t2"] exI [of _ ws])
      qed
    next
      case (Exited rc s1)
      from traced_Exited [OF c on Exited] obtain t ws where
        "rc \<noteq> 0" "errexit s1" "trace s1 = trace s @ t @ [(Checked, ws, rc)]" "W ws" "quiet W t" .
      with Exited show ?thesis
        by (auto intro!: exI [of _ t] exI [of _ ws])
    qed
  qed
qed

lemma if_then_else_run:
  "if_then_else b thn els s =
     (case b s of (v, s1) \<Rightarrow>
        if (if v then thn else els) = [] then Running (s1\<lparr>status := 0\<rparr>)
        else seq (if v then thn else els) s1)"
  by (simp add: if_then_else_def split: prod.split list.split)

lemma traced_if_then_else:
  assumes b: "traced_test W b" and thn: "list_all (traced W) thn" and els: "list_all (traced W) els"
  shows "traced W (if_then_else b thn els)"
  unfolding traced_def
proof (intro allI impI)
  fix s :: state
  assume on: "errexit s"
  obtain v s1 where bs: "b s = (v, s1)" by (cases "b s")
  with b on obtain ws rc where t1: "W ws" "trace s1 = trace s @ [(Condition, ws, rc)]" "errexit s1"
    by (auto simp: traced_test_def dest!: spec [of _ s])
  define body where "body = (if v then thn else els)"
  have body: "traced W (seq body)"
    using thn els by (simp add: body_def traced_seq)
  have q1: "quiet W [(Condition, ws, rc)]"
    using t1 by (simp add: quiet_single)
  show "case if_then_else b thn els s of
          Running s' \<Rightarrow> errexit s' \<and> (\<exists>t. trace s' = trace s @ t \<and> quiet W t)
        | Exited rc s' \<Rightarrow> rc \<noteq> 0 \<and> errexit s'
            \<and> (\<exists>t ws. trace s' = trace s @ t @ [(Checked, ws, rc)] \<and> W ws \<and> quiet W t)"
  proof (cases "body = []")
    case True
    then have "if_then_else b thn els s = Running (s1\<lparr>status := 0\<rparr>)"
      using bs by (simp add: if_then_else_run body_def)
    with t1 q1 show ?thesis by simp
  next
    case False
    then have run: "if_then_else b thn els s = seq body s1"
      using bs by (simp add: if_then_else_run body_def)
    show ?thesis
    proof (cases "seq body s1")
      case (Running s2)
      from traced_Running [OF body t1(3) Running] obtain t2 where
        "errexit s2" "trace s2 = trace s1 @ t2" "quiet W t2" .
      with t1 q1 Running run show ?thesis by simp
    next
      case (Exited rc2 s2)
      from traced_Exited [OF body t1(3) Exited] obtain t2 ws2 where
        "rc2 \<noteq> 0" "errexit s2" "trace s2 = trace s1 @ t2 @ [(Checked, ws2, rc2)]" "W ws2" "quiet W t2" .
      with t1 q1 Exited run show ?thesis
        by (auto intro!: exI [of _ "(Condition, ws, rc) # t2"] exI [of _ ws2])
    qed
  qed
qed

lemma traced_test_not_f: "W [''['', ''!'', ''-f'', path_str p, '']''] \<Longrightarrow> traced_test W (test_not_f p)"
  by (auto simp: traced_test_def test_not_f_def Let_def log_def)

lemma traced_test_not_d: "W [''['', ''!'', ''-d'', path_str p, '']''] \<Longrightarrow> traced_test W (test_not_d p)"
  by (auto simp: traced_test_def test_not_d_def Let_def log_def)

lemma traced_not_command_v_node: "W [''command'', ''-v'', ''node''] \<Longrightarrow> traced_test W (not_command_v_node E)"
  by (auto simp: traced_test_def not_command_v_node_def Let_def log_def)

lemma traced_test_lt: "(\<And>v. W [''['', v, ''-lt'', w, '']'']) \<Longrightarrow> traced_test W (test_lt var n w)"
  by (auto simp: traced_test_def test_lt_def Let_def log_def)

lemmas traced_rules =
  traced_echo traced_ext traced_cp_cmd traced_mkdir_p_cmd traced_cat_to traced_cd traced_exit_cmd
  traced_assign_node_version traced_echo_node_v traced_seq traced_if_then_else
  traced_test_not_f traced_test_not_d traced_not_command_v_node traced_test_lt

lemma script_command_simps [simp]:
  "script_command (''echo'' # r)" "script_command (''exit'' # r)" "script_command (''command'' # r)"
  "script_command (''node'' # r)" "script_command (''cut'' # r)" "script_command (''['' # r)"
  "script_command (''cd'' # r)" "script_command (''cp'' # r)" "script_command (''mkdir'' # r)"
  "script_command (''cat'' # r)" "script_command (''npm'' # r)" "script_command (''npx'' # r)"
  "script_command (''sudo'' # ''apt-get'' # r)"
  by (simp_all add: script_command_def package_manager_def)

lemma traced_setup_sh_body:
  "traced script_command
     (seq [echo E (rocket @ '' Setting up Actual Build development environment...''),
           check_node_installed E, check_node_version E, setup_body E])"
  by (simp add: traced_rules check_node_installed_def check_node_version_def setup_body_def
      create_env_file_def create_frontend_package_json_def create_backend_package_json_def
      setup_next_steps_def)

lemma traced_codespace_body:
  "traced script_command
     (seq [echo E (rocket @ '' Setting up Actual Build Codespace...''),
           install_system_dependencies E, set_up_environment_file E, install_root_dependencies E,
           set_up_frontend E, set_up_backend E, set_up_shared E,
           create_development_configuration E, codespace_next_steps E])"
  by (simp add: traced_rules install_system_dependencies_def set_up_environment_file_def
      install_root_dependencies_def set_up_frontend_def set_up_backend_def set_up_shared_def
      create_development_configuration_def codespace_next_steps_def)

lemma snd_finish: "snd (finish r) = state_of r"
  by (cases r) (simp_all add: finish_def)

lemma quiet_no_failed: "quiet W t \<Longrightarrow> \<not> list_ex failed_checked t"
  by (induction t) (auto simp: quiet_def)

lemma quiet_words: "quiet W t \<Longrightarrow> list_all (\<lambda>e. W (fst (snd e))) t"
  by (induction t) (auto simp: quiet_def)

lemma list_ex_butlast: "\<not> list_ex P t \<Longrightarrow> \<not> list_ex P (butlast t)"
  by (auto simp: list_ex_iff dest: in_set_butlastD)

lemma quiet_last: "quiet W t \<Longrightarrow> t \<noteq> [] \<Longrightarrow> \<not> failed_checked (last t)"
  by (induction t) (auto simp: quiet_def)

lemma traced_grows: "traced W c \<Longrightarrow> errexit s \<Longrightarrow> \<exists>t. trace (state_of (c s)) = trace s @ t"
  by (cases "c s") (auto simp: traced_def dest!: spec [of _ s])

lemma traced_on: "traced W c \<Longrightarrow> errexit s \<Longrightarrow> errexit (state_of (c s))"
  by (cases "c s") (auto simp: traced_def dest!: spec [of _ s])

lemma traced_new_words:
  assumes "traced W c" "errexit s"
  shows "list_all (\<lambda>e. W (fst (snd e))) (drop (length (trace s)) (trace (state_of (c s))))"
proof (cases "c s")
  case (Running s')
  from traced_Running [OF assms Running] obtain t where "trace s' = trace s @ t" "quiet W t"
    by blast
  with Running show ?thesis by (simp add: quiet_words)
next
  case (Exited rc s')
  from traced_Exited [OF assms Exited] obtain t ws where
    "trace s' = trace s @ t @ [(Checked, ws, rc)]" "W ws" "quiet W t"
    by blast
  with Exited show ?thesis by (simp add: quiet_words)
qed

lemma seq_append:
  "seq (a @ b) s = (case seq a s of Running s' \<Rightarrow> seq b s' | Exited rc s' \<Rightarrow> Exited rc s')"
  by (induction a arbitrary: s) (simp_all split: outcome.split)

lemma seq_seq: "seq (seq a # b) s = seq (a @ b) s"
  by (simp add: seq_append)

lemma seq_set_e: "seq (set_e # cs) s = seq cs (s\<lparr>errexit := True\<rparr>)"
  by (simp add: set_e_def)

lemma seq_last_Running:
  "cs \<noteq> [] \<Longrightarrow> seq cs s = Running s' \<Longrightarrow> \<exists>s1. last cs s1 = Running s'"
proof (induction cs arbitrary: s)
  case Nil
  then show ?case by simp
next
  case (Cons c cs)
  show ?case
  proof (cases "cs = []")
    case True
    with Cons.prems show ?thesis by (auto split: outcome.splits)
  next
    case False
    from Cons.prems(2) obtain s1 where "seq cs s1 = Running s'"
      by (auto split: outcome.splits)
    from Cons.IH [OF False this] False show ?thesis by simp
  qed
qed

lemma echo_Running:
  assumes "echo E t s = Running s'" "errexit s'"
  shows "echo_status E = 0" "stdout s' = stdout s @ [t]"
    "trace s' = trace s @ [(Checked, [''echo'', t], 0)]" "status s' = 0"
    "files s' = files s" "cwd s' = cwd s"
  using assms by (auto simp: echo_def simple_def log_def split: if_splits)

lemma echo_last:
  "echo E t s1 = Running s' \<Longrightarrow> errexit s'
   \<Longrightarrow> last (trace s') = (Checked, [''echo'', t], 0) \<and> status s' = 0"
  by (simp add: echo_Running)

lemma setup_sh_last_command:
  assumes "seq [echo E (rocket @ '' Setting up Actual Build development environment...''),
           check_node_installed E, check_node_version E, setup_body E] s = Running s'"
    and "errexit s'"
  shows "last (trace s') = (Checked, [''echo'', books @ '' Check the README.md for detailed instructions''], 0)
         \<and> status s' = 0"
proof -
  from seq_last_Running [OF _ assms(1)] obtain s1 where "setup_body E s1 = Running s'"
    by auto
  from seq_last_Running [OF _ this [unfolded setup_body_def]] obtain s2 where
    "setup_next_steps E s2 = Running s'"
    by auto
  from seq_last_Running [OF _ this [unfolded setup_next_steps_def]] obtain s3 where
    "echo E (books @ '' Check the README.md for detailed instructions'') s3 = Running s'"
    by auto
  then show ?thesis using assms(2) by (rule echo_last)
qed

lemma codespace_last_command:
  assumes "seq [echo E (rocket @ '' Setting up Actual Build Codespace...''),
           install_system_dependencies E, set_up_environment_file E, install_root_dependencies E,
           set_up_frontend E, set_up_backend E, set_up_shared E,
           create_development_configuration E, codespace_next_steps E] s = Running s'"
    and "errexit s'"
  shows "last (trace s') = (Checked, [''echo'', books @ '' Check the docs/ directory for detailed guides''], 0)
         \<and> status s' = 0"
proof -
  from seq_last_Running [OF _ assms(1)] obtain s1 where "codespace_next_steps E s1 = Running s'"
    by auto
  from seq_last_Running [OF _ this [unfolded codespace_next_steps_def]] obtain s3 where
    "echo E (books @ '' Check the docs/ directory for detailed guides'') s3 = Running s'"
    by auto
  then show ?thesis using assms(2) by (rule echo_last)
qed

text \<open>
  A script is \<^verbatim>\<open>set -e\<close> followed by its commands. What follows for every script whose
  commands keep the invariant and end in an \<^verbatim>\<open>echo\<close>.
\<close>

lemma script_on:
  assumes "traced W (seq cs)"
  shows "errexit (snd (finish (seq (set_e # cs) s)))"
  unfolding snd_finish seq_set_e by (rule traced_on [OF assms]) simp

lemma script_words:
  assumes "traced W (seq cs)"
  shows "list_all (\<lambda>e. W (fst (snd e)))
           (drop (length (trace s)) (trace (snd (finish (seq (set_e # cs) s)))))"
  unfolding snd_finish seq_set_e
  using traced_new_words [OF assms, of "s\<lparr>errexit := True\<rparr>"] by simp

lemma script_ran_to_end:
  assumes tr: "traced W (seq cs)"
    and last: "\<And>s0 s'. seq cs s0 = Running s' \<Longrightarrow> errexit s'
                 \<Longrightarrow> last (trace s') = (Checked, ws, 0) \<and> status s' = 0"
  shows "(fst (finish (seq (set_e # cs) s)) = 0)
         = (last (trace (snd (finish (seq (set_e # cs) s)))) = (Checked, ws, 0))"
proof -
  let ?s0 = "s\<lparr>errexit := True\<rparr>"
  have on: "errexit ?s0" by simp
  show ?thesis
  proof (cases "seq cs ?s0")
    case (Running s')
    from traced_Running [OF tr on Running] have "errexit s'" by blast
    with last [OF Running] show ?thesis
      unfolding seq_set_e Running by (simp add: finish_def)
  next
    case (Exited rc s')
    from traced_Exited [OF tr on Exited] obtain t ws' where
      "rc \<noteq> 0" "trace s' = trace ?s0 @ t @ [(Checked, ws', rc)]"
      by blast
    then show ?thesis
      unfolding seq_set_e Exited by (simp add: finish_def)
  qed
qed

lemma script_errexit_respected:
  assumes tr: "traced W (seq cs)"
    and last: "\<And>s0 s'. seq cs s0 = Running s' \<Longrightarrow> errexit s'
                 \<Longrightarrow> last (trace s') = (Checked, ws, 0) \<and> status s' = 0"
    and fresh: "trace s = []"
  shows "errexit_respected (finish (seq (set_e # cs) s))"
proof -
  let ?s0 = "s\<lparr>errexit := True\<rparr>"
  have on: "errexit ?s0" by simp
  show ?thesis
  proof (cases "seq cs ?s0")
    case (Running s')
    from traced_Running [OF tr on Running] obtain t where
      t0: "errexit s'" "trace s' = trace ?s0 @ t" "quiet W t"
      by blast
    with fresh have t: "errexit s'" "trace s' = t" "quiet W t"
      by simp_all
    from last [OF Running t(1)] have "status s' = 0" by simp
    with t quiet_no_failed [OF t(3)] quiet_last [OF t(3)] show ?thesis
      unfolding seq_set_e Running
      by (auto simp: errexit_respected_def finish_def Let_def list_ex_butlast)
  next
    case (Exited rc s')
    from traced_Exited [OF tr on Exited] obtain t ws' where
      t0: "rc \<noteq> 0" "trace s' = trace ?s0 @ t @ [(Checked, ws', rc)]" "quiet W t"
      by blast
    with fresh have t: "rc \<noteq> 0" "trace s' = t @ [(Checked, ws', rc)]" "quiet W t"
      by simp_all
    with quiet_no_failed [OF t(3)] show ?thesis
      unfolding seq_set_e Exited
      by (simp add: errexit_respected_def finish_def Let_def)
  qed
qed

lemma setup_sh_script:
  "setup_sh E s =
     finish (seq (set_e #
       [echo E (rocket @ '' Setting up Actual Build development environment...''),
        check_node_installed E, check_node_version E, setup_body E]) s)"
  by (simp only: setup_sh_def)

lemma codespace_setup_script:
  "codespace_setup E s =
     finish (seq (set_e #
       [echo E (rocket @ '' Setting up Actual Build Codespace...''),
        install_system_dependencies E, set_up_environment_file E, install_root_dependencies E,
        set_up_frontend E, set_up_backend E, set_up_shared E,
        create_development_configuration E, codespace_next_steps E]) s)"
  by (simp only: codespace_setup_def)

lemma setup_sh_fails_at_cp:
  "fst (setup_sh node20 checkout_without_template) = 1
   \<and> last (trace (snd (setup_sh node20 checkout_without_template)))
       = (Checked, [''cp'', ''.env.example'', ''.env''], 1)"
  by code_simp

lemma codespace_fails_at_apt:
  "fst (codespace_setup offline fresh_checkout) = 100
   \<and> last (trace (snd (codespace_setup offline fresh_checkout)))
       = (Checked, [''sudo'', ''apt-get'', ''update''], 100)"
  by code_simp

text \<open>
  C8, as the scripts have it. Both scripts turn \<^verbatim>\<open>set -e\<close> on before anything else, and
  the option stays on. In a run of either script no command in plain position fails
  before the last command run; when the last command run is a failed command in plain
  position (or \<^verbatim>\<open>exit 1\<close>), nothing runs after it and the script's exit status is that
  command's non-zero status; otherwise the script has run to its end: its exit status is
  0 and the last command run is its closing \<^verbatim>\<open>echo\<close>. Commands in the condition of an
  \<^verbatim>\<open>if\<close>, inside a pipeline or in a command substitution are not in plain position.
\<close>

theorem scripts_stop_at_first_failed_checked_command:
  assumes "trace s = []"
  shows "errexit (snd (setup_sh E s))
       \<and> errexit_respected (setup_sh E s)
       \<and> (fst (setup_sh E s) = 0) =
           (last (trace (snd (setup_sh E s)))
            = (Checked, [''echo'', books @ '' Check the README.md for detailed instructions''], 0))
       \<and> errexit (snd (codespace_setup E s))
       \<and> errexit_respected (codespace_setup E s)
       \<and> (fst (codespace_setup E s) = 0) =
           (last (trace (snd (codespace_setup E s)))
            = (Checked, [''echo'', books @ '' Check the docs/ directory for detailed guides''], 0))"
  unfolding setup_sh_script codespace_setup_script
  by (intro conjI script_on [OF traced_setup_sh_body] script_on [OF traced_codespace_body]
      script_errexit_respected [OF traced_setup_sh_body setup_sh_last_command assms]
      script_errexit_respected [OF traced_codespace_body codespace_last_command assms]
      script_ran_to_end [OF traced_setup_sh_body setup_sh_last_command]
      script_ran_to_end [OF traced_codespace_body codespace_last_command])

text \<open>
  Two runs that a failed command in plain position ends: \<^verbatim>\<open>setup.sh\<close> on a checkout
  without \<^verbatim>\<open>.env.example\<close>, where \<^verbatim>\<open>cp\<close> fails with status 1, and the Codespace setup
  script on a machine without a network, where \<^verbatim>\<open>sudo apt-get update\<close> fails with status
  100.
\<close>

theorem scripts_stop_at_first_failed_checked_command_witness:
  "trace checkout_without_template = []
   \<and> errexit_respected (setup_sh node20 checkout_without_template)
   \<and> fst (setup_sh node20 checkout_without_template) = 1
   \<and> last (trace (snd (setup_sh node20 checkout_without_template)))
       = (Checked, [''cp'', ''.env.example'', ''.env''], 1)
   \<and> trace fresh_checkout = []
   \<and> errexit_respected (codespace_setup offline fresh_checkout)
   \<and> fst (codespace_setup offline fresh_checkout) = 100
   \<and> last (trace (snd (codespace_setup offline fresh_checkout)))
       = (Checked, [''sudo'', ''apt-get'', ''update''], 100)"
proof -
  have a: "trace checkout_without_template = []" and b: "trace fresh_checkout = []"
    by (simp_all add: checkout_without_template_def fresh_checkout_def)
  show ?thesis
    using scripts_stop_at_first_failed_checked_command [OF a, of node20]
      scripts_stop_at_first_failed_checked_command [OF b, of offline]
      setup_sh_fails_at_cp codespace_fails_at_apt a b
    by simp
qed

text \<open>
  C8 as stated fails for the commands that are not in plain position. Where \<^verbatim>\<open>node\<close>
  is found but \<^verbatim>\<open>node -v\<close> fails and prints nothing, the \<^verbatim>\<open>node -v\<close> of line 17 exits
  with status 1 inside its pipeline, the test \<^verbatim>\<open>[ "$NODE_VERSION" -lt 18 ]\<close> of line 18
  exits with status 2 on the empty string, more commands run after both, and the script
  ends with status 0. (With a working Node.js 20 the same test exits with status 1, and
  the script goes on as well.)
\<close>

theorem failed_commands_do_not_stop_setup_sh:
  "(Pipeline, [''node'', ''-v''], 1)
     \<in> set (butlast (trace (snd (setup_sh failing_node fresh_checkout))))
   \<and> (Condition, [''['', '''', ''-lt'', ''18'', '']''], 2)
     \<in> set (butlast (trace (snd (setup_sh failing_node fresh_checkout))))
   \<and> fst (setup_sh failing_node fresh_checkout) = 0"
  by code_simp

text \<open>
  C5, as the scripts have it. Every command either script runs is one of \<^verbatim>\<open>echo\<close>,
  \<^verbatim>\<open>exit\<close>, \<^verbatim>\<open>command\<close>, \<^verbatim>\<open>node\<close>, \<^verbatim>\<open>cut\<close>, \<^verbatim>\<open>[\<close>, \<^verbatim>\<open>cd\<close>, \<^verbatim>\<open>cp\<close>, \<^verbatim>\<open>mkdir\<close>,
  \<^verbatim>\<open>cat\<close>, or a call of a package manager (\<^verbatim>\<open>sudo apt-get\<close>, \<^verbatim>\<open>npm\<close>, \<^verbatim>\<open>npx\<close>): no
  database client and no login is among them, and the only way to the network is through
  the package managers.
\<close>

theorem scripts_run_known_commands_only:
  assumes "trace s = []"
  shows "list_all (\<lambda>e. script_command (fst (snd e))) (trace (snd (setup_sh E s)))
       \<and> list_all (\<lambda>e. script_command (fst (snd e))) (trace (snd (codespace_setup E s)))"
  using script_words [OF traced_setup_sh_body, of s] script_words [OF traced_codespace_body, of s]
  unfolding setup_sh_script codespace_setup_script
  by (simp add: assms)

theorem scripts_run_known_commands_only_witness:
  "trace fresh_checkout = []
   \<and> list_all (\<lambda>e. script_command (fst (snd e))) (trace (snd (setup_sh node20 fresh_checkout)))
   \<and> list_all (\<lambda>e. script_command (fst (snd e)))
         (trace (snd (codespace_setup node20 fresh_checkout)))"
  using scripts_run_known_commands_only [of fresh_checkout node20]
  by (simp add: fresh_checkout_def)

subsection \<open>The calls of the package managers\<close>

lemma package_installs_Nil [simp]: "package_installs [] = []"
  by (simp add: package_installs_def)

lemma package_installs_append [simp]:
  "package_installs (t @ u) = package_installs t @ package_installs u"
  by (simp add: package_installs_def)

lemma package_installs_Cons [simp]:
  "package_installs ((k, ws, rc) # t) =
     (if package_manager ws then ws # package_installs t else package_installs t)"
  by (simp add: package_installs_def)

lemma package_installs_none:
  "list_all (\<lambda>e. W (fst (snd e))) t \<Longrightarrow> (\<And>ws. W ws \<Longrightarrow> \<not> package_manager ws)
   \<Longrightarrow> package_installs t = []"
  by (induction t) (auto simp: package_installs_def)

lemma calls_none:
  assumes tr: "traced W c" and no: "\<And>ws. W ws \<Longrightarrow> \<not> package_manager ws"
  shows "calls [] c"
  unfolding calls_def
proof (intro allI impI conjI)
  fix s :: state
  assume on: "errexit s"
  show "errexit (state_of (c s))"
    by (rule traced_on [OF tr on])
  show "\<exists>t. trace (state_of (c s)) = trace s @ t
          \<and> (case c s of Running s' \<Rightarrow> package_installs t = []
              | Exited rc s' \<Rightarrow> take (length (package_installs t)) [] = package_installs t)"
  proof (cases "c s")
    case (Running s')
    from traced_Running [OF tr on Running] obtain t where t: "trace s' = trace s @ t" "quiet W t"
      by blast
    from package_installs_none [OF quiet_words [OF t(2)] no] t(1) Running show ?thesis
      by simp
  next
    case (Exited rc s')
    from traced_Exited [OF tr on Exited] obtain t ws where
      t: "trace s' = trace s @ t @ [(Checked, ws, rc)]" "W ws" "quiet W t"
      by blast
    from package_installs_none [OF quiet_words [OF t(3)] no] no [OF t(2)] t(1) Exited
    show ?thesis by simp
  qed
qed

lemma calls_ext: "package_manager ws \<Longrightarrow> calls [ws] (ext E ws)"
  by (auto simp: calls_def ext_def simple_def log_def split: prod.splits)

lemma calls_Nil: "calls [] (seq [])"
  by (simp add: calls_def)

lemma calls_Cons:
  assumes c: "calls p c" and cs: "calls q (seq cs)"
  shows "calls (p @ q) (seq (c # cs))"
  unfolding calls_def
proof (intro allI impI)
  fix s :: state
  assume on: "errexit s"
  from c on obtain t1 where t1: "errexit (state_of (c s))" "trace (state_of (c s)) = trace s @ t1"
    "case c s of Running s' \<Rightarrow> package_installs t1 = p
       | Exited rc s' \<Rightarrow> take (length (package_installs t1)) p = package_installs t1"
    by (auto simp: calls_def)
  show "errexit (state_of (seq (c # cs) s))
        \<and> (\<exists>t. trace (state_of (seq (c # cs) s)) = trace s @ t
              \<and> (case seq (c # cs) s of Running s' \<Rightarrow> package_installs t = p @ q
                  | Exited rc s' \<Rightarrow>
                      take (length (package_installs t)) (p @ q) = package_installs t))"
  proof (cases "c s")
    case (Running s1)
    with t1 have s1: "errexit s1" "trace s1 = trace s @ t1" "package_installs t1 = p"
      by simp_all
    from cs s1(1) obtain t2 where t2: "errexit (state_of (seq cs s1))"
      "trace (state_of (seq cs s1)) = trace s1 @ t2"
      "case seq cs s1 of Running s' \<Rightarrow> package_installs t2 = q
         | Exited rc s' \<Rightarrow> take (length (package_installs t2)) q = package_installs t2"
      by (auto simp: calls_def)
    show ?thesis
      using Running s1 t2
      by (cases "seq cs s1") (auto intro!: exI [of _ "t1 @ t2"])
  next
    case (Exited rc s1)
    with t1 have s1: "errexit s1" "trace s1 = trace s @ t1"
      "take (length (package_installs t1)) p = package_installs t1"
      by simp_all
    from s1(3) have "length (take (length (package_installs t1)) p) = length (package_installs t1)"
      by simp
    then have "length (package_installs t1) \<le> length p"
      by simp
    with s1 Exited show ?thesis
      by (auto intro!: exI [of _ t1])
  qed
qed

lemma codespace_unfolded:
  "codespace_setup E s =
     finish (seq
       ([echo E (rocket @ '' Setting up Actual Build Codespace...''),
        echo E (package @ '' Installing system dependencies...''),
        ext E [''sudo'', ''apt-get'', ''update''],
        ext E [''sudo'', ''apt-get'', ''install'', ''-y'', ''postgresql-client'', ''git'', ''curl''],
        set_up_environment_file E,
        echo E (package @ '' Installing root dependencies...'')]
        @ ext E [''npm'', ''install'']
        # [set_up_frontend E, set_up_backend E, set_up_shared E,
        create_development_configuration E, codespace_next_steps E]) (s\<lparr>errexit := True\<rparr>))"
  by (simp add: codespace_setup_def install_system_dependencies_def install_root_dependencies_def
      set_e_def split: outcome.split)

lemma not_version_probe_simps [simp]:
  "\<not> version_probe [''echo'', t] \<longleftrightarrow> t \<noteq> ''-lt''"
  "\<not> version_probe [''cd'', d] \<longleftrightarrow> d \<noteq> ''-lt''"
  "\<not> version_probe (''sudo'' # r) \<longleftrightarrow> ''-lt'' \<notin> set r"
  "\<not> version_probe (''npm'' # r) \<longleftrightarrow> ''-lt'' \<notin> set r"
  "\<not> version_probe (''npx'' # r) \<longleftrightarrow> ''-lt'' \<notin> set r"
  "\<not> version_probe (''cp'' # r) \<longleftrightarrow> ''-lt'' \<notin> set r"
  "\<not> version_probe (''mkdir'' # r) \<longleftrightarrow> ''-lt'' \<notin> set r"
  "\<not> version_probe (''cat'' # r) \<longleftrightarrow> ''-lt'' \<notin> set r"
  "\<not> version_probe (''['' # r) \<longleftrightarrow> ''-lt'' \<notin> set r"
  by (auto simp: version_probe_def)

lemma traced_codespace_no_probe:
  "traced (\<lambda>ws. \<not> version_probe ws)
     (seq [echo E (rocket @ '' Setting up Actual Build Codespace...''),
           install_system_dependencies E, set_up_environment_file E, install_root_dependencies E,
           set_up_frontend E, set_up_backend E, set_up_shared E,
           create_development_configuration E, codespace_next_steps E])"
  by (simp add: traced_rules install_system_dependencies_def set_up_environment_file_def
      install_root_dependencies_def set_up_frontend_def set_up_backend_def set_up_shared_def
      create_development_configuration_def codespace_next_steps_def path_str_def)

lemma traced_codespace_rest:
  "traced script_command (seq [set_up_frontend E, set_up_backend E, set_up_shared E,
        create_development_configuration E, codespace_next_steps E])"
  by (simp add: traced_rules set_up_frontend_def set_up_backend_def set_up_shared_def
      create_development_configuration_def codespace_next_steps_def)

lemma not_package_manager_simps [simp]:
  "\<not> package_manager (''echo'' # r)" "\<not> package_manager (''cp'' # r)"
  "\<not> package_manager (''['' # r)"
  by (simp_all add: package_manager_def)

lemma calls_echo: "calls [] (echo E t)"
  by (rule calls_none [where W = "\<lambda>ws. \<not> package_manager ws"])
    (simp_all add: traced_echo)

lemma calls_set_up_environment_file: "calls [] (set_up_environment_file E)"
  by (rule calls_none [where W = "\<lambda>ws. \<not> package_manager ws"])
    (simp_all add: set_up_environment_file_def traced_rules)

lemma calls_codespace_preamble:
  "calls [[''sudo'', ''apt-get'', ''update''], [''sudo'', ''apt-get'', ''install'', ''-y'', ''postgresql-client'', ''git'', ''curl'']]
     (seq [echo E (rocket @ '' Setting up Actual Build Codespace...''),
        echo E (package @ '' Installing system dependencies...''),
        ext E [''sudo'', ''apt-get'', ''update''],
        ext E [''sudo'', ''apt-get'', ''install'', ''-y'', ''postgresql-client'', ''git'', ''curl''],
        set_up_environment_file E,
        echo E (package @ '' Installing root dependencies...'')])"
proof -
  have "calls ([] @ [] @ [[''sudo'', ''apt-get'', ''update'']] @ [[''sudo'', ''apt-get'', ''install'', ''-y'', ''postgresql-client'', ''git'', ''curl'']] @ [] @ [] @ [])
     (seq [echo E (rocket @ '' Setting up Actual Build Codespace...''),
        echo E (package @ '' Installing system dependencies...''),
        ext E [''sudo'', ''apt-get'', ''update''],
        ext E [''sudo'', ''apt-get'', ''install'', ''-y'', ''postgresql-client'', ''git'', ''curl''],
        set_up_environment_file E,
        echo E (package @ '' Installing root dependencies...'')])"
    by (intro calls_Cons calls_Nil calls_echo calls_set_up_environment_file calls_ext)
      (simp_all add: package_manager_def)
  then show ?thesis by simp
qed

lemma seq_prefix_trace:
  assumes b: "traced W (seq b)"
    and pre: "trace (state_of (seq a s)) = trace s @ ta" "errexit (state_of (seq a s))"
  shows "\<exists>t. trace (state_of (seq (a @ b) s)) = trace s @ ta @ t"
proof (cases "seq a s")
  case (Running s')
  with pre have "errexit s'" "trace s' = trace s @ ta" by simp_all
  with traced_grows [OF b, of s'] Running show ?thesis
    by (auto simp: seq_append)
next
  case (Exited rc s')
  with pre show ?thesis by (simp add: seq_append)
qed

lemma ext_trace:
  "trace (state_of (ext E ws s))
     = trace s @ [(Checked, ws, fst (run_ext E ws (cwd s) (files s)))]
   \<and> errexit (state_of (ext E ws s)) = errexit s"
  by (auto simp: ext_def simple_def log_def split: prod.split)

lemma codespace_first_commands:
  assumes "echo_status E = 0"
  shows "trace (state_of (seq [echo E (rocket @ '' Setting up Actual Build Codespace...''),
        echo E (package @ '' Installing system dependencies...''),
        ext E [''sudo'', ''apt-get'', ''update'']] s))
   = trace s @
     [(Checked, [''echo'', rocket @ '' Setting up Actual Build Codespace...''], 0),
      (Checked, [''echo'', package @ '' Installing system dependencies...''], 0),
      (Checked, [''sudo'', ''apt-get'', ''update''],
         fst (run_ext E [''sudo'', ''apt-get'', ''update''] (cwd s) (files s)))]
   \<and> errexit (state_of (seq [echo E (rocket @ '' Setting up Actual Build Codespace...''),
        echo E (package @ '' Installing system dependencies...''),
        ext E [''sudo'', ''apt-get'', ''update'']] s)) = errexit s"
  using assms by (auto simp: echo_def ext_def simple_def log_def split: prod.split)

lemma codespace_split3:
  "codespace_setup E s =
     finish (seq
       ([echo E (rocket @ '' Setting up Actual Build Codespace...''),
        echo E (package @ '' Installing system dependencies...''),
        ext E [''sudo'', ''apt-get'', ''update'']]
        @ [ext E [''sudo'', ''apt-get'', ''install'', ''-y'', ''postgresql-client'', ''git'', ''curl''],
        set_up_environment_file E, install_root_dependencies E,
        set_up_frontend E, set_up_backend E, set_up_shared E,
        create_development_configuration E, codespace_next_steps E]) (s\<lparr>errexit := True\<rparr>))"
  by (simp add: codespace_setup_def install_system_dependencies_def set_e_def
      split: outcome.split)

lemma traced_codespace_after3:
  "traced script_command (seq [ext E [''sudo'', ''apt-get'', ''install'', ''-y'', ''postgresql-client'', ''git'', ''curl''],
        set_up_environment_file E, install_root_dependencies E,
        set_up_frontend E, set_up_backend E, set_up_shared E,
        create_development_configuration E, codespace_next_steps E])"
  by (simp add: traced_rules set_up_environment_file_def
      install_root_dependencies_def set_up_frontend_def set_up_backend_def set_up_shared_def
      create_development_configuration_def codespace_next_steps_def)

lemma codespace_trace_prefix:
  assumes "echo_status E = 0"
  shows "take 3 (drop (length (trace s)) (trace (snd (codespace_setup E s)))) =
     [(Checked, [''echo'', rocket @ '' Setting up Actual Build Codespace...''], 0),
      (Checked, [''echo'', package @ '' Installing system dependencies...''], 0),
      (Checked, [''sudo'', ''apt-get'', ''update''],
         fst (run_ext E [''sudo'', ''apt-get'', ''update''] (cwd s) (files s)))]"
proof -
  let ?s0 = "s\<lparr>errexit := True\<rparr>"
  from codespace_first_commands [OF assms, of ?s0]
  have pre: "trace (state_of (seq [echo E (rocket @ '' Setting up Actual Build Codespace...''),
        echo E (package @ '' Installing system dependencies...''),
        ext E [''sudo'', ''apt-get'', ''update'']] ?s0))
   = trace ?s0 @
     [(Checked, [''echo'', rocket @ '' Setting up Actual Build Codespace...''], 0),
      (Checked, [''echo'', package @ '' Installing system dependencies...''], 0),
      (Checked, [''sudo'', ''apt-get'', ''update''],
         fst (run_ext E [''sudo'', ''apt-get'', ''update''] (cwd s) (files s)))]"
    "errexit (state_of (seq [echo E (rocket @ '' Setting up Actual Build Codespace...''),
        echo E (package @ '' Installing system dependencies...''),
        ext E [''sudo'', ''apt-get'', ''update'']] ?s0))"
    by simp_all
  from seq_prefix_trace [OF traced_codespace_after3 pre] obtain t where
    "trace (snd (codespace_setup E s)) = trace s @
     [(Checked, [''echo'', rocket @ '' Setting up Actual Build Codespace...''], 0),
      (Checked, [''echo'', package @ '' Installing system dependencies...''], 0),
      (Checked, [''sudo'', ''apt-get'', ''update''],
         fst (run_ext E [''sudo'', ''apt-get'', ''update''] (cwd s) (files s)))] @ t"
    unfolding codespace_split3 snd_finish by auto
  then show ?thesis by simp
qed

lemma codespace_stdout_closed:
  assumes "echo_status E \<noteq> 0"
  shows "trace (snd (codespace_setup E s)) =
     trace s @ [(Checked, [''echo'', rocket @ '' Setting up Actual Build Codespace...''], echo_status E)]"
  using assms by (simp add: codespace_setup_def set_e_def echo_def simple_def log_def finish_def)

lemma codespace_only_echo_first:
  "list_all is_echo
     (takeWhile (\<lambda>e. \<not> package_manager (fst (snd e)))
        (drop (length (trace s)) (trace (snd (codespace_setup E s)))))"
proof (cases "echo_status E = 0")
  case True
  let ?t = "drop (length (trace s)) (trace (snd (codespace_setup E s)))"
  let ?u = "(Checked, [''sudo'', ''apt-get'', ''update''],
         fst (run_ext E [''sudo'', ''apt-get'', ''update''] (cwd s) (files s)))"
  have "?t = take 3 ?t @ drop 3 ?t" by (rule append_take_drop_id [symmetric])
  also have "\<dots> = [(Checked, [''echo'', rocket @ '' Setting up Actual Build Codespace...''], 0),
      (Checked, [''echo'', package @ '' Installing system dependencies...''], 0), ?u] @ drop 3 ?t"
    unfolding codespace_trace_prefix [OF True] ..
  finally have "?t = [(Checked, [''echo'', rocket @ '' Setting up Actual Build Codespace...''], 0),
      (Checked, [''echo'', package @ '' Installing system dependencies...''], 0), ?u] @ drop 3 ?t" .
  then have "takeWhile (\<lambda>e. \<not> package_manager (fst (snd e))) ?t =
     [(Checked, [''echo'', rocket @ '' Setting up Actual Build Codespace...''], 0),
      (Checked, [''echo'', package @ '' Installing system dependencies...''], 0)]"
    by (simp add: package_manager_def)
  then show ?thesis
    by (simp add: is_echo_def)
next
  case False
  then show ?thesis
    by (simp add: codespace_stdout_closed is_echo_def package_manager_def)
qed

lemma seq_single_case [simp]:
  "(case r of Running s' \<Rightarrow> seq [] s' | Exited rc s' \<Rightarrow> Exited rc s') = r"
  by (cases r) simp_all

lemma calls_then_grows:
  assumes a: "calls ps (seq a)" and b: "traced W (seq b)" and on: "errexit s"
  shows "\<exists>t. trace (state_of (seq (a @ b) s)) = trace s @ t
           \<and> take (length ps) (package_installs t) = take (length (package_installs t)) ps"
proof -
  from a on obtain t1 where t1: "errexit (state_of (seq a s))"
    "trace (state_of (seq a s)) = trace s @ t1"
    "case seq a s of Running s' \<Rightarrow> package_installs t1 = ps
       | Exited rc s' \<Rightarrow> take (length (package_installs t1)) ps = package_installs t1"
    by (auto simp: calls_def)
  show ?thesis
  proof (cases "seq a s")
    case (Running s1)
    with t1 have s1: "errexit s1" "trace s1 = trace s @ t1" "package_installs t1 = ps"
      by simp_all
    from traced_grows [OF b s1(1)] obtain t2 where "trace (state_of (seq b s1)) = trace s1 @ t2"
      by blast
    with s1 Running show ?thesis
      by (auto simp: seq_append intro!: exI [of _ "t1 @ t2"])
  next
    case (Exited rc s1)
    with t1 have s1: "trace s1 = trace s @ t1"
      "take (length (package_installs t1)) ps = package_installs t1"
      by simp_all
    from s1(2) have "length (take (length (package_installs t1)) ps) = length (package_installs t1)"
      by simp
    then have "length (package_installs t1) \<le> length ps"
      by simp
    with s1 Exited show ?thesis
      by (auto simp: seq_append intro!: exI [of _ t1])
  qed
qed

lemma calls_codespace_installs:
  "calls [[''sudo'', ''apt-get'', ''update''], [''sudo'', ''apt-get'', ''install'', ''-y'', ''postgresql-client'', ''git'', ''curl''], [''npm'', ''install'']]
     (seq ([echo E (rocket @ '' Setting up Actual Build Codespace...''),
        echo E (package @ '' Installing system dependencies...''),
        ext E [''sudo'', ''apt-get'', ''update''],
        ext E [''sudo'', ''apt-get'', ''install'', ''-y'', ''postgresql-client'', ''git'', ''curl''],
        set_up_environment_file E,
        echo E (package @ '' Installing root dependencies...'')] @ [ext E [''npm'', ''install'']]))"
proof -
  have "calls ([] @ [] @ [[''sudo'', ''apt-get'', ''update'']] @ [[''sudo'', ''apt-get'', ''install'', ''-y'', ''postgresql-client'', ''git'', ''curl'']] @ [] @ [] @ [[''npm'', ''install'']] @ [])
     (seq [echo E (rocket @ '' Setting up Actual Build Codespace...''),
        echo E (package @ '' Installing system dependencies...''),
        ext E [''sudo'', ''apt-get'', ''update''],
        ext E [''sudo'', ''apt-get'', ''install'', ''-y'', ''postgresql-client'', ''git'', ''curl''],
        set_up_environment_file E,
        echo E (package @ '' Installing root dependencies...''),
        ext E [''npm'', ''install'']])"
    by (intro calls_Cons calls_Nil calls_echo calls_set_up_environment_file calls_ext)
      (simp_all add: package_manager_def)
  then show ?thesis by simp
qed

lemma codespace_unfolded':
  "codespace_setup E s =
     finish (seq
       (([echo E (rocket @ '' Setting up Actual Build Codespace...''),
        echo E (package @ '' Installing system dependencies...''),
        ext E [''sudo'', ''apt-get'', ''update''],
        ext E [''sudo'', ''apt-get'', ''install'', ''-y'', ''postgresql-client'', ''git'', ''curl''],
        set_up_environment_file E,
        echo E (package @ '' Installing root dependencies...'')] @ [ext E [''npm'', ''install'']])
        @ [set_up_frontend E, set_up_backend E, set_up_shared E,
        create_development_configuration E, codespace_next_steps E]) (s\<lparr>errexit := True\<rparr>))"
  unfolding codespace_unfolded by simp

lemma codespace_package_installs:
  "take 3 (package_installs (drop (length (trace s)) (trace (snd (codespace_setup E s)))))
   = take (length (package_installs (drop (length (trace s)) (trace (snd (codespace_setup E s))))))
       [[''sudo'', ''apt-get'', ''update''], [''sudo'', ''apt-get'', ''install'', ''-y'', ''postgresql-client'', ''git'', ''curl''], [''npm'', ''install'']]"
proof -
  let ?s0 = "s\<lparr>errexit := True\<rparr>"
  let ?ps = "[[''sudo'', ''apt-get'', ''update''], [''sudo'', ''apt-get'', ''install'', ''-y'', ''postgresql-client'', ''git'', ''curl''], [''npm'', ''install'']]"
  have on: "errexit ?s0" by simp
  from calls_then_grows [OF calls_codespace_installs traced_codespace_rest on, of E E]
  obtain t where t: "trace (snd (codespace_setup E s)) = trace s @ t"
    "take (length ?ps) (package_installs t) = take (length (package_installs t)) ?ps"
    unfolding codespace_unfolded' snd_finish by auto
  have "length ?ps = 3" by simp
  with t(2) have "take 3 (package_installs t) = take (length (package_installs t)) ?ps"
    by (simp only:)
  then show ?thesis
    unfolding t(1) by simp
qed

lemma codespace_preamble_runs:
  assumes "errexit s" "echo_status E = 0"
    and "run_ext E [''sudo'', ''apt-get'', ''update''] (cwd s) (files s) = (0, f1)"
    and "run_ext E [''sudo'', ''apt-get'', ''install'', ''-y'', ''postgresql-client'', ''git'', ''curl''] (cwd s) f1 = (0, f2)"
    and "is_file f2 (cwd s @ [''.env''])
         \<or> fst (cp f2 (cwd s @ [''.env.example'']) (cwd s @ [''.env''])) = 0"
  shows "\<exists>s6. seq [echo E (rocket @ '' Setting up Actual Build Codespace...''),
        echo E (package @ '' Installing system dependencies...''),
        ext E [''sudo'', ''apt-get'', ''update''],
        ext E [''sudo'', ''apt-get'', ''install'', ''-y'', ''postgresql-client'', ''git'', ''curl''],
        set_up_environment_file E,
        echo E (package @ '' Installing root dependencies...'')] s = Running s6"
  using assms
  by (auto simp: echo_def ext_def simple_def log_def set_up_environment_file_def
      if_then_else_def test_not_f_def Let_def cp_cmd_def split: prod.splits)

lemma codespace_reaches_npm_install:
  assumes "echo_status E = 0"
    and "run_ext E [''sudo'', ''apt-get'', ''update''] (cwd s) (files s) = (0, f1)"
    and "run_ext E [''sudo'', ''apt-get'', ''install'', ''-y'', ''postgresql-client'', ''git'', ''curl''] (cwd s) f1 = (0, f2)"
    and "is_file f2 (cwd s @ [''.env''])
         \<or> fst (cp f2 (cwd s @ [''.env.example'']) (cwd s @ [''.env''])) = 0"
  shows "take 3 (package_installs (drop (length (trace s)) (trace (snd (codespace_setup E s)))))
         = [[''sudo'', ''apt-get'', ''update''], [''sudo'', ''apt-get'', ''install'', ''-y'', ''postgresql-client'', ''git'', ''curl''], [''npm'', ''install'']]"
proof -
  let ?s0 = "s\<lparr>errexit := True\<rparr>"
  let ?pre = "[echo E (rocket @ '' Setting up Actual Build Codespace...''),
        echo E (package @ '' Installing system dependencies...''),
        ext E [''sudo'', ''apt-get'', ''update''],
        ext E [''sudo'', ''apt-get'', ''install'', ''-y'', ''postgresql-client'', ''git'', ''curl''],
        set_up_environment_file E,
        echo E (package @ '' Installing root dependencies...'')]"
  let ?rest = "[set_up_frontend E, set_up_backend E, set_up_shared E,
        create_development_configuration E, codespace_next_steps E]"
  let ?n = "[''npm'', ''install'']"
  have on: "errexit ?s0" by simp
  from codespace_preamble_runs [of ?s0 E f1 f2] assms obtain s6 where
    s6: "seq ?pre ?s0 = Running s6"
    by auto
  from calls_codespace_preamble [of E] on s6 obtain t6 where
    t6: "errexit s6" "trace s6 = trace s @ t6"
      "package_installs t6 = [[''sudo'', ''apt-get'', ''update''], [''sudo'', ''apt-get'', ''install'', ''-y'', ''postgresql-client'', ''git'', ''curl'']]"
    by (auto simp: calls_def dest!: spec [of _ ?s0])
  have run: "codespace_setup E s = finish (seq (ext E ?n # ?rest) s6)"
    unfolding codespace_unfolded seq_append s6 by simp
  obtain rc where n: "trace (state_of (ext E ?n s6)) = trace s6 @ [(Checked, ?n, rc)]"
    "errexit (state_of (ext E ?n s6))"
    using ext_trace [of E ?n s6] t6(1) by simp
  have "trace (state_of (seq [ext E ?n] s6)) = trace s6 @ [(Checked, ?n, rc)]"
    and "errexit (state_of (seq [ext E ?n] s6))"
    using n by simp_all
  from seq_prefix_trace [OF traced_codespace_rest this]
  have "\<exists>t. trace (state_of (seq ([ext E ?n] @ ?rest) s6)) = trace s6 @ [(Checked, ?n, rc)] @ t" .
  then obtain t where "trace (snd (codespace_setup E s)) = trace s @ t6 @ [(Checked, ?n, rc)] @ t"
    unfolding run snd_finish using t6(2) by auto
  with t6(3) show ?thesis
    by (simp add: package_manager_def)
qed

text \<open>
  C5 as stated fails: the package managers are called, and they fetch over the network.
  On a fresh checkout the Codespace setup script runs \<^verbatim>\<open>sudo apt-get update\<close>.
\<close>

theorem codespace_setup_downloads:
  "list_ex (\<lambda>e. downloads (fst (snd e))) (trace (snd (codespace_setup node20 fresh_checkout)))"
proof -
  let ?t = "trace (snd (codespace_setup node20 fresh_checkout))"
  have "take 3 ?t =
     [(Checked, [''echo'', rocket @ '' Setting up Actual Build Codespace...''], 0),
      (Checked, [''echo'', package @ '' Installing system dependencies...''], 0),
      (Checked, [''sudo'', ''apt-get'', ''update''], 0)]"
    using codespace_trace_prefix [of node20 fresh_checkout]
    by (simp add: fresh_checkout_def node20_def)
  then have "(Checked, [''sudo'', ''apt-get'', ''update''], 0) \<in> set (take 3 ?t)"
    by simp
  then have "(Checked, [''sudo'', ''apt-get'', ''update''], 0) \<in> set ?t"
    by (rule in_set_takeD)
  moreover have "downloads (fst (snd (Checked, [''sudo'', ''apt-get'', ''update''], 0 :: nat)))"
    by (simp add: downloads_def)
  ultimately show ?thesis
    unfolding list_ex_iff by (rule rev_bexI)
qed

lemma ext_node_irrelevant: "ext (E\<lparr>node_found := b, node_v := v\<rparr>) ws = ext E ws"
  by (simp add: ext_def)

lemma echo_node_irrelevant: "echo (E\<lparr>node_found := b, node_v := v\<rparr>) t = echo E t"
  by (simp add: echo_def cong: if_cong)

lemma codespace_node_irrelevant:
  "codespace_setup (E\<lparr>node_found := b, node_v := v\<rparr>) s = codespace_setup E s"
  by (simp only: codespace_setup_def ext_node_irrelevant echo_node_irrelevant
      install_system_dependencies_def set_up_environment_file_def install_root_dependencies_def
      set_up_frontend_def set_up_backend_def set_up_shared_def
      create_development_configuration_def codespace_next_steps_def)

lemma codespace_no_probe:
  "list_all (\<lambda>e. \<not> version_probe (fst (snd e)))
     (drop (length (trace s)) (trace (snd (codespace_setup E s))))"
  unfolding codespace_setup_script by (rule script_words [OF traced_codespace_no_probe])

text \<open>
  C10. The Codespace setup script has no tool-version precondition. Whether \<^verbatim>\<open>node\<close>
  is installed and what version it reports make no difference to a run. No run executes
  \<^verbatim>\<open>command -v\<close>, \<^verbatim>\<open>node\<close>, \<^verbatim>\<open>cut\<close>, a numeric comparison or \<^verbatim>\<open>exit\<close>. Nothing but
  \<^verbatim>\<open>echo\<close> runs before the first call of a package manager, and the calls of the package
  managers begin with \<^verbatim>\<open>sudo apt-get update\<close>,
  \<^verbatim>\<open>sudo apt-get install -y postgresql-client git curl\<close> and \<^verbatim>\<open>npm install\<close>, in this
  order, as far as the run gets. The run gets to \<^verbatim>\<open>npm install\<close> when the standard output
  can be written, both calls of \<^verbatim>\<open>apt-get\<close> succeed, and \<^verbatim>\<open>.env\<close> is a regular file or the
  copy of \<^verbatim>\<open>.env.example\<close> succeeds.
\<close>

theorem codespace_setup_checks_no_version:
  "codespace_setup (E\<lparr>node_found := b, node_v := v\<rparr>) s = codespace_setup E s
   \<and> (let t = drop (length (trace s)) (trace (snd (codespace_setup E s)));
          update = [''sudo'', ''apt-get'', ''update''];
          install = [''sudo'', ''apt-get'', ''install'', ''-y'', ''postgresql-client'', ''git'', ''curl''];
          (rc1, f1) = run_ext E update (cwd s) (files s);
          (rc2, f2) = run_ext E install (cwd s) f1
      in list_all (\<lambda>e. \<not> version_probe (fst (snd e))) t
       \<and> list_all is_echo (takeWhile (\<lambda>e. \<not> package_manager (fst (snd e))) t)
       \<and> take 3 (package_installs t)
           = take (length (package_installs t)) [update, install, [''npm'', ''install'']]
       \<and> (echo_status E = 0 \<and> rc1 = 0 \<and> rc2 = 0
            \<and> (is_file f2 (cwd s @ [''.env''])
                \<or> fst (cp f2 (cwd s @ [''.env.example'']) (cwd s @ [''.env''])) = 0)
          \<longrightarrow> take 3 (package_installs t) = [update, install, [''npm'', ''install'']]))"
proof -
  obtain rc1 f1 where 1: "run_ext E [''sudo'', ''apt-get'', ''update''] (cwd s) (files s) = (rc1, f1)"
    by (cases "run_ext E [''sudo'', ''apt-get'', ''update''] (cwd s) (files s)")
  obtain rc2 f2 where 2: "run_ext E [''sudo'', ''apt-get'', ''install'', ''-y'', ''postgresql-client'', ''git'', ''curl''] (cwd s) f1 = (rc2, f2)"
    by (cases "run_ext E [''sudo'', ''apt-get'', ''install'', ''-y'', ''postgresql-client'', ''git'', ''curl''] (cwd s) f1")
  show ?thesis
    unfolding Let_def 1 2 prod.case
  proof (intro conjI impI)
    assume "echo_status E = 0 \<and> rc1 = 0 \<and> rc2 = 0
       \<and> (is_file f2 (cwd s @ [''.env''])
           \<or> fst (cp f2 (cwd s @ [''.env.example'']) (cwd s @ [''.env''])) = 0)"
    with 1 2 show "take 3 (package_installs (drop (length (trace s)) (trace (snd (codespace_setup E s)))))
         = [[''sudo'', ''apt-get'', ''update''], [''sudo'', ''apt-get'', ''install'', ''-y'', ''postgresql-client'', ''git'', ''curl''], [''npm'', ''install'']]"
      by (intro codespace_reaches_npm_install [where ?f1.0 = f1 and ?f2.0 = f2]) simp_all
  qed (rule codespace_node_irrelevant codespace_no_probe codespace_only_echo_first
      codespace_package_installs)+
qed

theorem codespace_setup_checks_no_version_witness:
  "list_all (\<lambda>e. \<not> version_probe (fst (snd e))) (trace (snd (codespace_setup node20 fresh_checkout)))
   \<and> take 3 (package_installs (trace (snd (codespace_setup node20 fresh_checkout))))
       = [[''sudo'', ''apt-get'', ''update''], [''sudo'', ''apt-get'', ''install'', ''-y'', ''postgresql-client'', ''git'', ''curl''], [''npm'', ''install'']]"
proof -
  note th = codespace_setup_checks_no_version
    [where E = node20 and s = fresh_checkout and b = True and v = "(0, [])",
     unfolded Let_def split_beta]
  have fresh: "trace fresh_checkout = []"
    by (simp add: fresh_checkout_def)
  have "echo_status node20 = 0
     \<and> fst (run_ext node20 [''sudo'', ''apt-get'', ''update''] (cwd fresh_checkout) (files fresh_checkout)) = 0
     \<and> fst (run_ext node20 [''sudo'', ''apt-get'', ''install'', ''-y'', ''postgresql-client'', ''git'', ''curl''] (cwd fresh_checkout)
          (snd (run_ext node20 [''sudo'', ''apt-get'', ''update''] (cwd fresh_checkout) (files fresh_checkout)))) = 0
     \<and> (is_file (snd (run_ext node20 [''sudo'', ''apt-get'', ''install'', ''-y'', ''postgresql-client'', ''git'', ''curl''] (cwd fresh_checkout)
          (snd (run_ext node20 [''sudo'', ''apt-get'', ''update''] (cwd fresh_checkout) (files fresh_checkout)))))
            (cwd fresh_checkout @ [''.env''])
          \<or> fst (cp (snd (run_ext node20 [''sudo'', ''apt-get'', ''install'', ''-y'', ''postgresql-client'', ''git'', ''curl''] (cwd fresh_checkout)
          (snd (run_ext node20 [''sudo'', ''apt-get'', ''update''] (cwd fresh_checkout) (files fresh_checkout)))))
               (cwd fresh_checkout @ [''.env.example'']) (cwd fresh_checkout @ [''.env''])) = 0)"
    by (simp add: node20_def fresh_checkout_def cp_def write_file_def is_dir_def)
  from th [THEN conjunct2, THEN conjunct2, THEN conjunct2, THEN conjunct2, THEN mp, OF this]
    th [THEN conjunct2, THEN conjunct1]
  show ?thesis
    by (simp add: fresh)
qed

section \<open>What the scripts do to the files\<close>

subsection \<open>The version check\<close>

lemma echo_run:
  "echo_status E = 0 \<Longrightarrow>
   echo E t s = Running (s\<lparr>stdout := stdout s @ [t], trace := trace s @ [(Checked, [''echo'', t], 0)],
                           status := 0\<rparr>)"
  by (simp add: echo_def simple_def log_def)

lemma echo_fails:
  "echo_status E \<noteq> 0 \<Longrightarrow> errexit s \<Longrightarrow>
   echo E t s = Exited (echo_status E)
     (s\<lparr>trace := trace s @ [(Checked, [''echo'', t], echo_status E)], status := echo_status E\<rparr>)"
  by (simp add: echo_def simple_def log_def)

lemma version_check_fails_not_found: "\<not> node_found E \<Longrightarrow> version_check_fails E"
  by (simp add: version_check_fails_def)

lemma version_check_fails_reports:
  assumes "node_found E" "node_reports E major rest"
  shows "version_check_fails E = (major < 18)"
  using assms(1) node_version_value [OF assms(2)]
  by (simp add: version_check_fails_def legal_number_decimal)

lemma setup_sh_split:
  "setup_sh E s =
     finish (seq ([echo E (rocket @ '' Setting up Actual Build development environment...''),
        check_node_installed E, check_node_version E]
        @ [setup_body E]) (s\<lparr>errexit := True\<rparr>))"
  by (simp add: setup_sh_def set_e_def)

lemma checks_fail:
  assumes "version_check_fails E" "echo_status E = 0"
  shows "\<exists>s'. seq [echo E (rocket @ '' Setting up Actual Build development environment...''),
        check_node_installed E, check_node_version E] s = Exited 1 s'
     \<and> stdout s' = stdout s @
          [rocket @ '' Setting up Actual Build development environment...'',
           if node_found E
           then cross_mark @ '' Node.js version 18+ is required. Current version: '' @ command_subst (snd (node_v E))
           else cross_mark @ '' Node.js is not installed. Please install Node.js 18+ and try again.'']
     \<and> files s' = files s
     \<and> (\<exists>t. trace s' = trace s @ t \<and> list_all (\<lambda>e. \<not> writes (fst (snd e))) t)"
  using assms
  by (auto simp: version_check_fails_def echo_run check_node_installed_def check_node_version_def
      if_then_else_def not_command_v_node_def assign_node_version_def test_lt_def echo_node_v_def
      exit_cmd_def log_def Let_def writes_def split: option.splits)

lemma checks_pass:
  assumes "\<not> version_check_fails E" "echo_status E = 0"
  shows "\<exists>s'. seq [echo E (rocket @ '' Setting up Actual Build development environment...''),
        check_node_installed E, check_node_version E] s = Running s'
     \<and> files s' = files s \<and> cwd s' = cwd s \<and> errexit s' = errexit s
     \<and> (\<exists>t. trace s' = trace s @ t \<and> (Checked, [''exit'', ''1''], 1) \<notin> set t
            \<and> list_all (\<lambda>e. \<not> writes (fst (snd e))) t)"
  using assms
  by (auto simp: version_check_fails_def echo_run check_node_installed_def check_node_version_def
      if_then_else_def not_command_v_node_def assign_node_version_def test_lt_def
      log_def Let_def writes_def split: option.splits)

lemma stdout_closed:
  assumes "echo_status E \<noteq> 0"
  shows "setup_sh E s =
     (echo_status E,
      s\<lparr>trace := trace s @ [(Checked, [''echo'', rocket @ '' Setting up Actual Build development environment...''], echo_status E)],
        errexit := True, status := echo_status E\<rparr>)"
  using assms by (simp add: setup_sh_def set_e_def echo_fails finish_def)

lemma setup_body_first_commands:
  assumes "echo_status E = 0"
  shows "trace (state_of (seq [echo_node_v E (check_mark @ '' Node.js version: ''),
       echo E (package @ '' Installing root dependencies...''),
       ext E [''npm'', ''install'']] s))
   = trace s @
     [(Substitution, [''node'', ''-v''], fst (node_v E)),
      (Checked, [''echo'', check_mark @ '' Node.js version: '' @ command_subst (snd (node_v E))], 0),
      (Checked, [''echo'', package @ '' Installing root dependencies...''], 0),
      (Checked, [''npm'', ''install''],
         fst (run_ext E [''npm'', ''install''] (cwd s) (files s)))]"
    and "errexit (state_of (seq [echo_node_v E (check_mark @ '' Node.js version: ''),
       echo E (package @ '' Installing root dependencies...''),
       ext E [''npm'', ''install'']] s)) = errexit s"
  using assms
  by (auto simp: echo_node_v_def echo_run ext_def simple_def log_def split: prod.split)

lemma traced_setup_body_rest:
  "traced script_command (seq [create_env_file E, create_frontend_package_json E, create_backend_package_json E,
       setup_next_steps E])"
  by (simp add: traced_rules create_env_file_def create_frontend_package_json_def
      create_backend_package_json_def setup_next_steps_def)

lemma setup_body_runs_npm_install:
  assumes "echo_status E = 0" "errexit s"
  shows "(Checked, [''npm'', ''install''], fst (run_ext E [''npm'', ''install''] (cwd s) (files s)))
     \<in> set (trace (state_of (setup_body E s)))"
proof -
  let ?pre = "[echo_node_v E (check_mark @ '' Node.js version: ''),
       echo E (package @ '' Installing root dependencies...''),
       ext E [''npm'', ''install'']]"
  let ?post = "[create_env_file E, create_frontend_package_json E, create_backend_package_json E,
       setup_next_steps E]"
  have split: "setup_body E s = seq (?pre @ ?post) s"
    by (simp add: setup_body_def)
  from seq_prefix_trace [OF traced_setup_body_rest setup_body_first_commands(1) [OF assms(1)], of s]
    setup_body_first_commands(2) [OF assms(1), of s] assms(2)
  obtain t where "trace (state_of (seq (?pre @ ?post) s)) = trace s @
     [(Substitution, [''node'', ''-v''], fst (node_v E)),
      (Checked, [''echo'', check_mark @ '' Node.js version: '' @ command_subst (snd (node_v E))], 0),
      (Checked, [''echo'', package @ '' Installing root dependencies...''], 0),
      (Checked, [''npm'', ''install''],
         fst (run_ext E [''npm'', ''install''] (cwd s) (files s)))] @ t"
    by auto
  then show ?thesis
    unfolding split by simp
qed

lemma traced_setup_body_no_exit:
  "traced (\<lambda>ws. take 1 ws \<noteq> [''exit'']) (setup_body E)"
  by (simp add: traced_rules setup_body_def create_env_file_def create_frontend_package_json_def
      create_backend_package_json_def setup_next_steps_def)

lemma setup_sh_after_checks:
  assumes "\<not> version_check_fails E" "echo_status E = 0"
  shows "\<exists>s3 t. setup_sh E s = finish (setup_body E s3) \<and> files s3 = files s \<and> cwd s3 = cwd s
           \<and> errexit s3 \<and> trace s3 = trace s @ t \<and> (Checked, [''exit'', ''1''], 1) \<notin> set t
           \<and> list_all (\<lambda>e. \<not> writes (fst (snd e))) t"
proof -
  from checks_pass [OF assms, of "s\<lparr>errexit := True\<rparr>"] obtain s3 t where
    s3: "seq [echo E (rocket @ '' Setting up Actual Build development environment...''),
        check_node_installed E, check_node_version E] (s\<lparr>errexit := True\<rparr>) = Running s3"
      "files s3 = files s" "cwd s3 = cwd s" "errexit s3" "trace s3 = trace s @ t"
      "(Checked, [''exit'', ''1''], 1) \<notin> set t" "list_all (\<lambda>e. \<not> writes (fst (snd e))) t"
    by auto
  have "setup_sh E s = finish (setup_body E s3)"
    unfolding setup_sh_split seq_append s3(1) by simp
  with s3 show ?thesis by blast
qed

lemma setup_sh_stops_at_checks:
  assumes "version_check_fails E" "echo_status E = 0"
  shows "fst (setup_sh E s) = 1
     \<and> stdout (snd (setup_sh E s)) = stdout s @
          [rocket @ '' Setting up Actual Build development environment...'',
           if node_found E
           then cross_mark @ '' Node.js version 18+ is required. Current version: '' @ command_subst (snd (node_v E))
           else cross_mark @ '' Node.js is not installed. Please install Node.js 18+ and try again.'']
     \<and> files (snd (setup_sh E s)) = files s
     \<and> list_all (\<lambda>e. \<not> writes (fst (snd e))) (drop (length (trace s)) (trace (snd (setup_sh E s))))"
proof -
  from checks_fail [OF assms, of "s\<lparr>errexit := True\<rparr>"] obtain s' t where
    s': "seq [echo E (rocket @ '' Setting up Actual Build development environment...''),
        check_node_installed E, check_node_version E] (s\<lparr>errexit := True\<rparr>) = Exited 1 s'"
      "stdout s' = stdout s @
          [rocket @ '' Setting up Actual Build development environment...'',
           if node_found E
           then cross_mark @ '' Node.js version 18+ is required. Current version: '' @ command_subst (snd (node_v E))
           else cross_mark @ '' Node.js is not installed. Please install Node.js 18+ and try again.'']"
      "files s' = files s" "trace s' = trace s @ t" "list_all (\<lambda>e. \<not> writes (fst (snd e))) t"
    by auto
  have "setup_sh E s = (1, s')"
    unfolding setup_sh_split seq_append s'(1) by (simp add: finish_def)
  with s' show ?thesis by simp
qed

lemma setup_sh_passes_checks:
  assumes "\<not> version_check_fails E"
  shows "(Checked, [''exit'', ''1''], 1)
           \<notin> set (drop (length (trace s)) (trace (snd (setup_sh E s))))"
    and "echo_status E = 0 \<Longrightarrow>
         (Checked, [''npm'', ''install''], fst (run_ext E [''npm'', ''install''] (cwd s) (files s)))
           \<in> set (trace (snd (setup_sh E s)))"
proof -
  show "(Checked, [''exit'', ''1''], 1)
           \<notin> set (drop (length (trace s)) (trace (snd (setup_sh E s))))"
  proof (cases "echo_status E = 0")
    case True
    from setup_sh_after_checks [OF assms True, of s] obtain s3 t where
      s3: "setup_sh E s = finish (setup_body E s3)" "errexit s3" "trace s3 = trace s @ t"
        "(Checked, [''exit'', ''1''], 1) \<notin> set t"
      by blast
    from traced_grows [OF traced_setup_body_no_exit s3(2)] obtain u where
      u: "trace (state_of (setup_body E s3)) = trace s3 @ u"
      by blast
    from traced_new_words [OF traced_setup_body_no_exit s3(2), of E] u
    have "list_all (\<lambda>e. take 1 (fst (snd e)) \<noteq> [''exit'']) u"
      by simp
    then have "(Checked, [''exit'', ''1''], 1) \<notin> set u"
      by (auto simp: list_all_iff)
    with s3 u show ?thesis
      by (simp add: snd_finish)
  next
    case False
    then show ?thesis by (simp add: stdout_closed)
  qed
next
  assume ok: "echo_status E = 0"
  from setup_sh_after_checks [OF assms ok, of s] obtain s3 where
    s3: "setup_sh E s = finish (setup_body E s3)" "files s3 = files s" "cwd s3 = cwd s" "errexit s3"
    by blast
  with setup_body_runs_npm_install [OF ok s3(4)]
  show "(Checked, [''npm'', ''install''], fst (run_ext E [''npm'', ''install''] (cwd s) (files s)))
           \<in> set (trace (snd (setup_sh E s)))"
    by (simp add: snd_finish)
qed

lemma failing_node_passes:
  "\<not> version_check_fails failing_node
   \<and> fst (setup_sh failing_node fresh_checkout) = 0
   \<and> is_file (files (snd (setup_sh failing_node fresh_checkout))) [''.env'']"
  by code_simp

text \<open>
  C2. \<^verbatim>\<open>setup.sh\<close> exits with a non-zero status whenever its version check fails, that
  is when \<^verbatim>\<open>node\<close> is not found, or is found and reports, in the one line
  \<^verbatim>\<open>v<major>.<rest>\<close>, a major version below 18. When the standard output can be written
  the status is 1 and the script has printed, after its opening line,
  ``Node.js is not installed ...'' in the first case and ``Node.js version 18+ is
  required. Current version: ...'' with the output of \<^verbatim>\<open>node -v\<close> in the second; when it
  cannot, the script has ended before the check, with the status of the failed \<^verbatim>\<open>echo\<close>.
  When the check does not fail (\<^verbatim>\<open>node\<close> is found and reports a major version of at
  least 18, or what \<^verbatim>\<open>node -v\<close> prints yields no integer), the script does not exit at
  the check: no \<^verbatim>\<open>exit 1\<close> is run, and with a writable standard output the script goes
  on to run \<^verbatim>\<open>npm install\<close>.
\<close>

theorem setup_sh_version_precondition:
  "(\<not> node_found E \<longrightarrow> version_check_fails E)
   \<and> (node_found E \<and> node_reports E major rest \<longrightarrow> version_check_fails E = (major < 18))
   \<and> (version_check_fails E \<longrightarrow>
        fst (setup_sh E s) \<noteq> 0
      \<and> (echo_status E = 0 \<longrightarrow>
           fst (setup_sh E s) = 1
         \<and> stdout (snd (setup_sh E s)) = stdout s @
              [rocket @ '' Setting up Actual Build development environment...'',
               if node_found E
               then cross_mark @ '' Node.js version 18+ is required. Current version: '' @ command_subst (snd (node_v E))
               else cross_mark @ '' Node.js is not installed. Please install Node.js 18+ and try again.'']))
   \<and> (\<not> version_check_fails E \<longrightarrow>
        (Checked, [''exit'', ''1''], 1)
          \<notin> set (drop (length (trace s)) (trace (snd (setup_sh E s))))
      \<and> (echo_status E = 0 \<longrightarrow>
           (Checked, [''npm'', ''install''], fst (run_ext E [''npm'', ''install''] (cwd s) (files s)))
             \<in> set (trace (snd (setup_sh E s)))))"
proof (intro conjI impI)
  show "version_check_fails E" if "\<not> node_found E"
    using that by (rule version_check_fails_not_found)
  show "version_check_fails E = (major < 18)" if "node_found E \<and> node_reports E major rest"
    using that version_check_fails_reports [of E major rest] by simp
  show "fst (setup_sh E s) \<noteq> 0" if "version_check_fails E"
    using setup_sh_stops_at_checks [OF that, of s] stdout_closed [of E s]
    by (cases "echo_status E = 0") simp_all
  show "fst (setup_sh E s) = 1" if "version_check_fails E" "echo_status E = 0"
    using setup_sh_stops_at_checks [OF that, of s] by simp
  show "stdout (snd (setup_sh E s)) = stdout s @
              [rocket @ '' Setting up Actual Build development environment...'',
               if node_found E
               then cross_mark @ '' Node.js version 18+ is required. Current version: '' @ command_subst (snd (node_v E))
               else cross_mark @ '' Node.js is not installed. Please install Node.js 18+ and try again.'']"
    if "version_check_fails E" "echo_status E = 0"
    using setup_sh_stops_at_checks [OF that, of s] by (simp only:)
  show "(Checked, [''exit'', ''1''], 1)
          \<notin> set (drop (length (trace s)) (trace (snd (setup_sh E s))))"
    if "\<not> version_check_fails E"
    using that by (rule setup_sh_passes_checks(1))
  show "(Checked, [''npm'', ''install''], fst (run_ext E [''npm'', ''install''] (cwd s) (files s)))
             \<in> set (trace (snd (setup_sh E s)))"
    if "\<not> version_check_fails E" "echo_status E = 0"
    using that by (rule setup_sh_passes_checks(2))
qed

theorem setup_sh_version_precondition_witness:
  "\<not> node_found no_node \<and> version_check_fails no_node \<and> echo_status no_node = 0
   \<and> fst (setup_sh no_node fresh_checkout) = 1
   \<and> stdout (snd (setup_sh no_node fresh_checkout)) =
        [rocket @ '' Setting up Actual Build development environment...'',
         cross_mark @ '' Node.js is not installed. Please install Node.js 18+ and try again.'']
   \<and> node_found node16 \<and> node_reports node16 16 ''20.2'' \<and> version_check_fails node16
   \<and> echo_status node16 = 0
   \<and> fst (setup_sh node16 fresh_checkout) = 1
   \<and> stdout (snd (setup_sh node16 fresh_checkout)) =
        [rocket @ '' Setting up Actual Build development environment...'',
         cross_mark @ '' Node.js version 18+ is required. Current version: '' @ ''v16.20.2'']
   \<and> node_found node20 \<and> node_reports node20 20 ''11.1'' \<and> \<not> version_check_fails node20
   \<and> echo_status node20 = 0
   \<and> (Checked, [''exit'', ''1''], 1) \<notin> set (trace (snd (setup_sh node20 fresh_checkout)))
   \<and> (Checked, [''npm'', ''install''], 0) \<in> set (trace (snd (setup_sh node20 fresh_checkout)))
   \<and> node_found failing_node \<and> \<not> version_check_fails failing_node
   \<and> echo_status failing_node = 0
   \<and> (Checked, [''exit'', ''1''], 1) \<notin> set (trace (snd (setup_sh failing_node fresh_checkout)))
   \<and> (Checked, [''npm'', ''install''], 0) \<in> set (trace (snd (setup_sh failing_node fresh_checkout)))"
proof -
  have s: "stdout fresh_checkout = []" "trace fresh_checkout = []"
    by (simp_all add: fresh_checkout_def)
  have e: "echo_status no_node = 0" "echo_status node16 = 0" "echo_status node20 = 0"
    "\<not> node_found no_node" "node_found node16" "node_found node20"
    "command_subst (snd (node_v node16)) = ''v16.20.2''"
    "fst (run_ext node20 [''npm'', ''install''] (cwd fresh_checkout) (files fresh_checkout)) = 0"
    "echo_status failing_node = 0" "node_found failing_node"
    "fst (run_ext failing_node [''npm'', ''install''] (cwd fresh_checkout) (files fresh_checkout)) = 0"
    by (simp_all add: no_node_def node16_def node20_def failing_node_def command_subst_def)
  show ?thesis
    using s e node16_reports node20_reports failing_node_passes
      setup_sh_version_precondition [where E = failing_node and major = 0 and rest = "[]" and s = fresh_checkout]
      setup_sh_version_precondition [where E = no_node and major = 0 and rest = "[]" and s = fresh_checkout]
      setup_sh_version_precondition [where E = node16 and major = 16 and rest = "''20.2''" and s = fresh_checkout]
      setup_sh_version_precondition [where E = node20 and major = 20 and rest = "''11.1''" and s = fresh_checkout]
    by simp
qed

text \<open>
  C3. When the version check fails (\<^verbatim>\<open>node\<close> is not found, or it reports, in the one
  line \<^verbatim>\<open>v<major>.<rest>\<close>, a major version below 18), \<^verbatim>\<open>setup.sh\<close> exits with a non-zero
  status (status 1 when the standard output can be written), it has run no command that
  writes files, and the files after the run are the files before it. In every other
  case, and so where \<^verbatim>\<open>node\<close> is found but what \<^verbatim>\<open>node -v\<close> prints yields no integer, the
  script goes past the check: with a writable standard output it runs \<^verbatim>\<open>npm install\<close>,
  and the steps after the check may write files.
\<close>

theorem failed_precondition_writes_nothing:
  "(\<not> node_found E \<or> (node_reports E major rest \<and> major < 18) \<longrightarrow> version_check_fails E)
   \<and> (version_check_fails E \<longrightarrow>
        fst (setup_sh E s) \<noteq> 0
      \<and> (echo_status E = 0 \<longrightarrow> fst (setup_sh E s) = 1)
      \<and> files (snd (setup_sh E s)) = files s
      \<and> list_all (\<lambda>e. \<not> writes (fst (snd e)))
           (drop (length (trace s)) (trace (snd (setup_sh E s)))))
   \<and> (\<not> version_check_fails E \<and> echo_status E = 0 \<longrightarrow>
        (Checked, [''npm'', ''install''], fst (run_ext E [''npm'', ''install''] (cwd s) (files s)))
          \<in> set (trace (snd (setup_sh E s))))"
proof (intro conjI impI)
  assume "\<not> node_found E \<or> (node_reports E major rest \<and> major < 18)"
  then show "version_check_fails E"
    using version_check_fails_reports [of E major rest]
    by (cases "node_found E") (auto simp: version_check_fails_not_found)
next
  assume f: "version_check_fails E"
  show "fst (setup_sh E s) \<noteq> 0"
    using setup_sh_stops_at_checks [OF f, of s] stdout_closed [of E s]
    by (cases "echo_status E = 0") simp_all
  show "files (snd (setup_sh E s)) = files s"
    using setup_sh_stops_at_checks [OF f, of s] stdout_closed [of E s]
    by (cases "echo_status E = 0") simp_all
  show "list_all (\<lambda>e. \<not> writes (fst (snd e)))
           (drop (length (trace s)) (trace (snd (setup_sh E s))))"
    using setup_sh_stops_at_checks [OF f, of s] stdout_closed [of E s]
    by (cases "echo_status E = 0") (simp_all add: writes_def)
  show "fst (setup_sh E s) = 1" if "echo_status E = 0"
    using setup_sh_stops_at_checks [OF f that, of s] by simp
next
  assume "\<not> version_check_fails E \<and> echo_status E = 0"
  then show "(Checked, [''npm'', ''install''], fst (run_ext E [''npm'', ''install''] (cwd s) (files s)))
          \<in> set (trace (snd (setup_sh E s)))"
    using setup_sh_passes_checks(2) [of E s] by simp
qed

theorem failed_precondition_writes_nothing_witness:
  "\<not> node_found no_node \<and> version_check_fails no_node
   \<and> fst (setup_sh no_node fresh_checkout) = 1
   \<and> files (snd (setup_sh no_node fresh_checkout)) = files fresh_checkout
   \<and> node_reports node16 16 ''20.2'' \<and> (16 :: nat) < 18 \<and> version_check_fails node16
   \<and> echo_status node16 = 0
   \<and> fst (setup_sh node16 fresh_checkout) = 1
   \<and> files (snd (setup_sh node16 fresh_checkout)) = files fresh_checkout
   \<and> list_all (\<lambda>e. \<not> writes (fst (snd e))) (trace (snd (setup_sh node16 fresh_checkout)))
   \<and> \<not> version_check_fails failing_node \<and> echo_status failing_node = 0
   \<and> (Checked, [''npm'', ''install''], 0) \<in> set (trace (snd (setup_sh failing_node fresh_checkout)))
   \<and> is_file (files (snd (setup_sh failing_node fresh_checkout))) [''.env'']"
proof -
  have s: "trace fresh_checkout = []"
    by (simp add: fresh_checkout_def)
  have e: "echo_status no_node = 0" "echo_status node16 = 0" "\<not> node_found no_node"
    "echo_status failing_node = 0"
    "fst (run_ext failing_node [''npm'', ''install''] (cwd fresh_checkout) (files fresh_checkout)) = 0"
    by (simp_all add: no_node_def node16_def failing_node_def)
  show ?thesis
    using s e node16_reports failing_node_passes
      failed_precondition_writes_nothing [where E = failing_node and major = 0 and rest = "[]"
        and s = fresh_checkout]
      failed_precondition_writes_nothing [where E = no_node and major = 0 and rest = "[]"
        and s = fresh_checkout]
      failed_precondition_writes_nothing [where E = node16 and major = 16 and rest = "''20.2''"
        and s = fresh_checkout]
    by simp
qed

subsection \<open>Commands that leave the files alone\<close>

lemma keeps_files_echo: "keeps_files (echo E t)"
  by (simp add: keeps_files_def echo_def simple_def log_def)

lemma keeps_files_echo_node_v: "keeps_files (echo_node_v E t)"
  by (simp add: keeps_files_def echo_node_v_def echo_def simple_def log_def)

lemma keeps_files_seq: "list_all keeps_files cs \<Longrightarrow> keeps_files (seq cs)"
proof (induction cs)
  case Nil
  show ?case by (simp add: keeps_files_def)
next
  case (Cons c cs)
  then have c: "\<And>s. files (state_of (c s)) = files s \<and> cwd (state_of (c s)) = cwd s
                  \<and> errexit (state_of (c s)) = errexit s"
    and cs: "\<And>s. files (state_of (seq cs s)) = files s \<and> cwd (state_of (seq cs s)) = cwd s
                  \<and> errexit (state_of (seq cs s)) = errexit s"
    by (simp_all add: keeps_files_def)
  show ?case
    unfolding keeps_files_def
  proof
    fix s
    show "files (state_of (seq (c # cs) s)) = files s \<and> cwd (state_of (seq (c # cs) s)) = cwd s
          \<and> errexit (state_of (seq (c # cs) s)) = errexit s"
      using c [of s] cs by (cases "c s") simp_all
  qed
qed

lemma keeps_files_setup_next_steps: "keeps_files (setup_next_steps E)"
  by (simp add: setup_next_steps_def keeps_files_seq keeps_files_echo)

lemma keeps_files_Running:
  "keeps_files c \<Longrightarrow> c s = Running s'
   \<Longrightarrow> files s' = files s \<and> cwd s' = cwd s \<and> errexit s' = errexit s"
  by (auto simp: keeps_files_def dest!: spec [of _ s])

subsection \<open>Running a sequence\<close>

lemma seq_Cons_Running:
  "seq (c # cs) s = Running s' \<Longrightarrow> \<exists>s1. c s = Running s1 \<and> seq cs s1 = Running s'"
  by (cases "c s") simp_all

lemma runs_with_Nil: "runs_with W (seq []) s (files s)"
  by (simp add: runs_with_def)

lemma runs_with_Cons:
  assumes "runs_with W c s f1"
    and "\<And>s1. files s1 = f1 \<Longrightarrow> cwd s1 = cwd s \<Longrightarrow> errexit s1 = errexit s
           \<Longrightarrow> runs_with W (seq cs) s1 f2"
  shows "runs_with W (seq (c # cs)) s f2"
proof -
  from assms(1) obtain s1 t1 where s1: "c s = Running s1" "files s1 = f1" "cwd s1 = cwd s"
    "errexit s1 = errexit s" "trace s1 = trace s @ t1" "list_all (\<lambda>e. W (fst (snd e))) t1"
    by (auto simp: runs_with_def)
  from assms(2) [OF s1(2,3,4)] obtain s2 t2 where s2: "seq cs s1 = Running s2" "files s2 = f2"
    "cwd s2 = cwd s1" "errexit s2 = errexit s1" "trace s2 = trace s1 @ t2"
    "list_all (\<lambda>e. W (fst (snd e))) t2"
    by (auto simp: runs_with_def)
  have "trace s2 = trace s @ (t1 @ t2)" "list_all (\<lambda>e. W (fst (snd e))) (t1 @ t2)"
    using s1 s2 by simp_all
  with s1 s2 show ?thesis
    unfolding runs_with_def by (intro exI [of _ s2] exI [of _ "t1 @ t2"]) simp
qed

lemma runs_with_ext:
  "W ws \<Longrightarrow> run_ext E ws (cwd s) (files s) = (0, f) \<Longrightarrow> runs_with W (ext E ws) s f"
  by (simp add: runs_with_def ext_def simple_def log_def)

lemma ext_Running:
  "ext E ws s = Running s' \<Longrightarrow> errexit s
   \<Longrightarrow> run_ext E ws (cwd s) (files s) = (0, files s') \<and> cwd s' = cwd s \<and> errexit s'"
  by (auto simp: ext_def simple_def log_def split: prod.splits if_splits)

lemma runs_with_echo:
  "echo_status E = 0 \<Longrightarrow> W [''echo'', t] \<Longrightarrow> runs_with W (echo E t) s (files s)"
  by (simp add: runs_with_def echo_run)

lemma runs_with_echo_node_v:
  "echo_status E = 0 \<Longrightarrow> W [''node'', ''-v''] \<Longrightarrow> W [''echo'', t @ command_subst (snd (node_v E))]
   \<Longrightarrow> runs_with W (echo_node_v E t) s (files s)"
  by (simp add: runs_with_def echo_node_v_def echo_run log_def)

lemma create_env_file_Running:
  assumes "create_env_file E s = Running s'" "errexit s"
  shows "cwd s' = cwd s \<and> errexit s'
    \<and> (if is_file (files s) (cwd s @ [''.env'']) then files s' = files s
       else cp (files s) (cwd s @ [''.env.example'']) (cwd s @ [''.env'']) = (0, files s'))"
  using assms
  by (auto simp: create_env_file_def if_then_else_def test_not_f_def Let_def echo_def
      cp_cmd_def simple_def log_def split: prod.splits if_splits)

lemma runs_with_create_env_file:
  assumes "\<And>ws. \<not> writes ws \<Longrightarrow> W ws" and "echo_status E = 0"
    and "if is_file (files s) (cwd s @ [''.env'']) then f = files s
       else cp (files s) (cwd s @ [''.env.example'']) (cwd s @ [''.env'']) = (0, f)
            \<and> W [''cp'', path_str [''.env.example''], path_str [''.env'']]"
  shows "runs_with W (create_env_file E) s f"
  using assms(2,3)
  by (auto simp: runs_with_def create_env_file_def if_then_else_def test_not_f_def Let_def
      echo_run cp_cmd_def simple_def log_def writes_def intro!: assms(1) split: if_splits)

lemma guarded_create_Running:
  assumes "if_then_else (test_not_f p) [echo E m, mkdir_p_cmd q, cat_to p doc] [] s = Running s'"
    and "errexit s"
  shows "cwd s' = cwd s \<and> errexit s'
    \<and> (if is_file (files s) (cwd s @ p) then files s' = files s
       else (\<exists>f1. mkdir_p (files s) (cwd s) q = (0, f1)
                \<and> write_file f1 (cwd s @ p) doc = (0, files s')))"
  using assms
  by (auto simp: if_then_else_def test_not_f_def Let_def echo_def mkdir_p_cmd_def cat_to_def
      simple_def log_def split: prod.splits if_splits)

lemma runs_with_guarded_skip:
  assumes "\<And>ws. \<not> writes ws \<Longrightarrow> W ws" and "is_file (files s) (cwd s @ p)"
  shows "runs_with W (if_then_else (test_not_f p) thn []) s (files s)"
  using assms(2)
  by (auto simp: runs_with_def if_then_else_def test_not_f_def Let_def log_def writes_def
      intro!: assms(1))

subsection \<open>The file system\<close>

lemma is_file_mono: "f \<subseteq>\<^sub>m g \<Longrightarrow> is_file f p \<Longrightarrow> is_file g p"
  by (auto simp: is_file_def map_le_def dom_def split: option.splits node.splits)

lemma env_settled_mono: "f \<subseteq>\<^sub>m g \<Longrightarrow> env_settled d f \<Longrightarrow> env_settled d g"
  unfolding env_settled_def
  by (auto simp: is_file_mono map_le_def dom_def split: option.splits node.splits)

lemma cp_settles:
  assumes "cp f (d @ [''.env.example'']) (d @ [''.env'']) = (0, f')"
  shows "env_settled d f'"
  using assms
  by (auto simp: cp_def write_file_def env_settled_def is_file_def is_dir_def
      split: option.splits node.splits if_splits)

lemma env_settled_cp:
  assumes "env_settled d f" "\<not> is_file f (d @ [''.env''])"
  shows "cp f (d @ [''.env.example'']) (d @ [''.env'']) = (0, f)"
  using assms
  by (auto simp: cp_def write_file_def env_settled_def is_file_def is_dir_def fun_upd_idem
      butlast_append split: option.splits node.splits if_splits)

lemma create_settles:
  assumes "\<not> is_file f (d @ [x, y])" "mkdir_p f d [x] = (0, f1)"
    "write_file f1 (d @ [x, y]) doc = (0, f2)"
  shows "is_file f2 (d @ [x, y]) \<and> f \<subseteq>\<^sub>m f2"
  using assms
  by (auto simp: write_file_def is_file_def is_dir_def map_le_def
      split: option.splits node.splits if_splits)

subsection \<open>A run, and a second run\<close>

lemma setup_body_Running:
  assumes "setup_body E s = Running s'" and on: "errexit s"
  shows "\<exists>f1 f2 f3.
      run_ext E [''npm'', ''install''] (cwd s) (files s) = (0, f1)
    \<and> env_settled (cwd s) f2
    \<and> is_file f3 (cwd s @ [''frontend'', ''package.json'']) \<and> f2 \<subseteq>\<^sub>m f3
    \<and> is_file (files s') (cwd s @ [''backend'', ''package.json'']) \<and> f3 \<subseteq>\<^sub>m files s'
    \<and> cwd s' = cwd s \<and> errexit s'"
proof -
  from assms(1) obtain s1 s2 s3 s4 s5 s6 where
    1: "echo_node_v E (check_mark @ '' Node.js version: '') s = Running s1" and
    2: "echo E (package @ '' Installing root dependencies...'') s1 = Running s2" and
    3: "ext E [''npm'', ''install''] s2 = Running s3" and
    4: "create_env_file E s3 = Running s4" and
    5: "create_frontend_package_json E s4 = Running s5" and
    6: "create_backend_package_json E s5 = Running s6" and
    7: "setup_next_steps E s6 = Running s'"
    unfolding setup_body_def
    by (auto split: outcome.splits)
  have k1: "files s1 = files s \<and> cwd s1 = cwd s \<and> errexit s1"
    using keeps_files_Running [OF keeps_files_echo_node_v 1] on by simp
  have k2: "files s2 = files s \<and> cwd s2 = cwd s \<and> errexit s2"
    using keeps_files_Running [OF keeps_files_echo 2] k1 by simp
  have k3: "run_ext E [''npm'', ''install''] (cwd s) (files s) = (0, files s3)" "cwd s3 = cwd s" "errexit s3"
    using ext_Running [OF 3] k2 by simp_all
  have k4: "env_settled (cwd s) (files s4)" "cwd s4 = cwd s" "errexit s4"
  proof -
    show "cwd s4 = cwd s" "errexit s4"
      using create_env_file_Running [OF 4 k3(3)] k3(2) by simp_all
    show "env_settled (cwd s) (files s4)"
    proof (cases "is_file (files s3) (cwd s @ [''.env''])")
      case True
      with create_env_file_Running [OF 4 k3(3)] k3(2) show ?thesis
        by (simp add: env_settled_def)
    next
      case False
      with create_env_file_Running [OF 4 k3(3)] k3(2) show ?thesis
        by (auto intro: cp_settles)
    qed
  qed
  have k5: "is_file (files s5) (cwd s @ [''frontend'', ''package.json''])"
    "files s4 \<subseteq>\<^sub>m files s5" "cwd s5 = cwd s" "errexit s5"
    using guarded_create_Running [OF 5 [unfolded create_frontend_package_json_def] k4(3)] k4(2)
    by (auto dest: create_settles split: if_splits)
  have k6: "is_file (files s6) (cwd s @ [''backend'', ''package.json''])"
    "files s5 \<subseteq>\<^sub>m files s6" "cwd s6 = cwd s" "errexit s6"
    using guarded_create_Running [OF 6 [unfolded create_backend_package_json_def] k5(4)] k5(3)
    by (auto dest: create_settles split: if_splits)
  have k7: "files s' = files s6 \<and> cwd s' = cwd s \<and> errexit s'"
    using keeps_files_Running [OF keeps_files_setup_next_steps 7] k6(3,4) by simp
  show ?thesis
    using k3 k4 k5 k6 k7 by auto
qed

lemma nonwrite_words [simp]:
  "\<not> writes (''echo'' # r)" "\<not> writes (''exit'' # r)" "\<not> writes (''command'' # r)"
  "\<not> writes (''node'' # r)" "\<not> writes (''cut'' # r)" "\<not> writes (''['' # r)"
  "\<not> writes (''npm'' # r)"
  by (simp_all add: writes_def)

lemma runs_with_echos:
  assumes "echo_status E = 0" and "\<And>t. W [''echo'', t]"
  shows "runs_with W (seq (map (echo E) ts)) s (files s)"
proof (induction ts arbitrary: s)
  case Nil
  show ?case by (simp add: runs_with_def)
next
  case (Cons t ts)
  have "runs_with W (seq (echo E t # map (echo E) ts)) s (files s)"
  proof (rule runs_with_Cons [OF runs_with_echo [OF assms(1)]])
    show "W [''echo'', t]" by (rule assms(2))
    fix s1 :: state assume "files s1 = files s"
    with Cons.IH [of s1] show "runs_with W (seq (map (echo E) ts)) s1 (files s)" by simp
  qed
  then show ?case by (simp only: list.map)
qed

lemma setup_next_steps_echos:
  "setup_next_steps E =
     seq (map (echo E)
       [check_mark @ '' Setup complete!'', '''', party_popper @ '' Next steps:'',
        ''1. Edit .env file with your configuration'',
        ''2. Set up your frontend framework in the frontend/ directory'',
        ''3. Set up your backend server in the backend/ directory'',
        ''4. Run '' @ [CHR 0x27] @ ''npm run dev'' @ [CHR 0x27] @ '' to start development servers'',
        '''', books @ '' Check the README.md for detailed instructions''])"
  by (simp add: setup_next_steps_def)

lemma setup_body_rerun:
  assumes nw: "\<And>ws. \<not> writes ws \<Longrightarrow> W ws"
    and ok: "echo_status E = 0"
    and npm: "run_ext E [''npm'', ''install''] (cwd s) (files s) = (0, files s)"
    and env: "env_settled (cwd s) (files s)"
    and cp: "is_file (files s) (cwd s @ [''.env'']) \<or> W [''cp'', path_str [''.env.example''], path_str [''.env'']]"
    and fe: "is_file (files s) (cwd s @ [''frontend'', ''package.json''])"
    and be: "is_file (files s) (cwd s @ [''backend'', ''package.json''])"
  shows "runs_with W (setup_body E) s (files s)"
  unfolding setup_body_def
proof (intro runs_with_Cons)
  show "runs_with W (echo_node_v E (check_mark @ '' Node.js version: '')) s (files s)"
    by (rule runs_with_echo_node_v [OF ok]) (simp_all add: nw)
next
  fix s1 :: state assume "files s1 = files s" "cwd s1 = cwd s"
  then show "runs_with W (echo E (package @ '' Installing root dependencies...'')) s1 (files s)"
    using runs_with_echo [OF ok, of W _ s1] by (simp add: nw)
next
  fix s1 s2 :: state assume "files s2 = files s" "cwd s2 = cwd s1" "cwd s1 = cwd s"
  then show "runs_with W (ext E [''npm'', ''install'']) s2 (files s)"
    using npm by (simp add: runs_with_ext nw)
next
  fix s1 s2 s3 :: state
  assume "files s3 = files s" "cwd s3 = cwd s2" "cwd s2 = cwd s1" "cwd s1 = cwd s"
  then show "runs_with W (create_env_file E) s3 (files s)"
    using env cp by (auto intro!: runs_with_create_env_file nw ok simp: env_settled_cp)
next
  fix s1 s2 s3 s4 :: state
  assume "files s4 = files s" "cwd s4 = cwd s3" "cwd s3 = cwd s2" "cwd s2 = cwd s1" "cwd s1 = cwd s"
  then show "runs_with W (create_frontend_package_json E) s4 (files s)"
    unfolding create_frontend_package_json_def
    using fe runs_with_guarded_skip [of W s4, OF nw] by simp
next
  fix s1 s2 s3 s4 s5 :: state
  assume "files s5 = files s" "cwd s5 = cwd s4" "cwd s4 = cwd s3" "cwd s3 = cwd s2"
    "cwd s2 = cwd s1" "cwd s1 = cwd s"
  then show "runs_with W (create_backend_package_json E) s5 (files s)"
    unfolding create_backend_package_json_def
    using be runs_with_guarded_skip [of W s5, OF nw] by simp
next
  fix s6 :: state
  assume f6: "files s6 = files s"
  have "runs_with W (setup_next_steps E) s6 (files s6)"
    unfolding setup_next_steps_echos by (rule runs_with_echos [OF ok]) (simp add: nw)
  then show "runs_with W (setup_next_steps E) s6 (files s)"
    unfolding f6 .
next
  fix s7 :: state assume "files s7 = files s"
  then show "runs_with W (seq []) s7 (files s)"
    using runs_with_Nil [of W s7] by simp
qed

lemma setup_body_status:
  assumes "setup_body E s = Running s'" "errexit s'"
  shows "status s' = 0"
proof -
  from seq_last_Running [OF _ assms(1) [unfolded setup_body_def]] obtain s2 where
    "setup_next_steps E s2 = Running s'"
    by auto
  from seq_last_Running [OF _ this [unfolded setup_next_steps_def]] obtain s3 where
    "echo E (books @ '' Check the README.md for detailed instructions'') s3 = Running s'"
    by auto
  then show ?thesis using assms(2) by (simp add: echo_Running)
qed

lemma traced_setup_body: "traced script_command (setup_body E)"
  by (simp add: traced_rules setup_body_def create_env_file_def create_frontend_package_json_def
      create_backend_package_json_def setup_next_steps_def)

lemma finish_zero_Running:
  assumes "traced W c" "errexit s" "finish (c s) = (0, s1)"
  shows "c s = Running s1"
proof (cases "c s")
  case (Running s')
  with assms(3) show ?thesis by (simp add: finish_def)
next
  case (Exited rc s')
  from traced_Exited [OF assms(1,2) Exited] have "rc \<noteq> 0" by blast
  with Exited assms(3) show ?thesis by (simp add: finish_def)
qed

lemma setup_sh_second_run:
  assumes pass: "\<not> version_check_fails E" and ok: "echo_status E = 0"
    and nw: "\<And>ws. \<not> writes ws \<Longrightarrow> W ws"
    and npm: "run_ext E [''npm'', ''install''] (cwd s) (files s) = (0, files s)"
    and env: "env_settled (cwd s) (files s)"
    and cp: "is_file (files s) (cwd s @ [''.env'']) \<or> W [''cp'', path_str [''.env.example''], path_str [''.env'']]"
    and fe: "is_file (files s) (cwd s @ [''frontend'', ''package.json''])"
    and be: "is_file (files s) (cwd s @ [''backend'', ''package.json''])"
  shows "fst (setup_sh E s) = 0 \<and> files (snd (setup_sh E s)) = files s
    \<and> list_all (\<lambda>e. W (fst (snd e))) (drop (length (trace s)) (trace (snd (setup_sh E s))))"
proof -
  from setup_sh_after_checks [OF pass ok, of s] obtain s3 t where
    s3: "setup_sh E s = finish (setup_body E s3)" "files s3 = files s" "cwd s3 = cwd s"
      "errexit s3" "trace s3 = trace s @ t" "list_all (\<lambda>e. \<not> writes (fst (snd e))) t"
    by blast
  have "runs_with W (setup_body E) s3 (files s3)"
    by (rule setup_body_rerun [OF nw ok]) (simp_all add: s3 npm env cp fe be)
  then obtain s' u where
    s': "setup_body E s3 = Running s'" "files s' = files s3" "errexit s' = errexit s3"
      "trace s' = trace s3 @ u" "list_all (\<lambda>e. W (fst (snd e))) u"
    by (auto simp: runs_with_def)
  from setup_body_status [OF s'(1)] s'(3) s3(4) have st: "status s' = 0" by simp
  have "list_all (\<lambda>e. W (fst (snd e))) t"
    using s3(6) nw by (auto simp: list_all_iff)
  with s3 s' st show ?thesis
    by (simp add: finish_def)
qed

lemma fresh_checkout_runs: "fst (setup_sh node20 fresh_checkout) = 0"
  by code_simp

lemma fresh_checkout_env:
  "is_file (files (snd (setup_sh node20 fresh_checkout)))
     (cwd (snd (setup_sh node20 fresh_checkout)) @ [''.env''])"
  by code_simp

lemma npm_logging_runs: "fst (setup_sh npm_logging fresh_checkout) = 0"
  by code_simp

lemma npm_logging_first:
  "files (snd (setup_sh npm_logging fresh_checkout)) [''install.log''] = Some (File ''installed'')"
  by code_simp

lemma npm_logging_second:
  "files (snd (setup_sh npm_logging (snd (setup_sh npm_logging fresh_checkout)))) [''install.log'']
   = Some (File ''installedinstalled'')"
  by code_simp

text \<open>
  C1, as the script has it. If a run of \<^verbatim>\<open>setup.sh\<close> completes, and running
  \<^verbatim>\<open>npm install\<close> on the files it leaves changes nothing, then a second run completes as
  well and leaves the same files. The three file-creation steps (\<^verbatim>\<open>.env\<close>,
  \<^verbatim>\<open>frontend/package.json\<close>, \<^verbatim>\<open>backend/package.json\<close>) are guarded by \<^verbatim>\<open>[ ! -f ... ]\<close>; when
  \<^verbatim>\<open>.env\<close> is a regular file after the first run, the second run runs no \<^verbatim>\<open>cp\<close>, no
  \<^verbatim>\<open>mkdir\<close> and no \<^verbatim>\<open>cat >\<close>. \<^verbatim>\<open>npm install\<close> is not guarded and runs again.
\<close>

theorem setup_sh_rerun:
  assumes run: "setup_sh E s = (0, s1)"
    and npm: "run_ext E [''npm'', ''install''] (cwd s1) (files s1) = (0, files s1)"
  shows "fst (setup_sh E s1) = 0
     \<and> files (snd (setup_sh E s1)) = files s1
     \<and> (is_file (files s1) (cwd s1 @ [''.env'']) \<longrightarrow>
          list_all (\<lambda>e. \<not> writes (fst (snd e)))
            (drop (length (trace s1)) (trace (snd (setup_sh E s1)))))"
proof -
  have ok: "echo_status E = 0"
    using run stdout_closed [of E s] by (cases "echo_status E = 0") simp_all
  have pass: "\<not> version_check_fails E"
    using run setup_sh_stops_at_checks [OF _ ok, of s] by auto
  from setup_sh_after_checks [OF pass ok, of s] obtain s3 where
    s3: "setup_sh E s = finish (setup_body E s3)" "cwd s3 = cwd s" "errexit s3"
    by blast
  have d: "setup_body E s3 = Running s1"
    using run by (intro finish_zero_Running [OF traced_setup_body s3(3)]) (simp add: s3(1))
  from setup_body_Running [OF d s3(3)] obtain f2 f3 where
    f: "env_settled (cwd s3) f2" "is_file f3 (cwd s3 @ [''frontend'', ''package.json''])"
      "f2 \<subseteq>\<^sub>m f3" "is_file (files s1) (cwd s3 @ [''backend'', ''package.json''])"
      "f3 \<subseteq>\<^sub>m files s1" "cwd s1 = cwd s3"
    by blast
  have env: "env_settled (cwd s1) (files s1)"
    using env_settled_mono [OF f(5) env_settled_mono [OF f(3) f(1)]] f(6) by simp
  have fe: "is_file (files s1) (cwd s1 @ [''frontend'', ''package.json''])"
    using is_file_mono [OF f(5) f(2)] f(6) by simp
  have be: "is_file (files s1) (cwd s1 @ [''backend'', ''package.json''])"
    using f by simp
  have all: "fst (setup_sh E s1) = 0 \<and> files (snd (setup_sh E s1)) = files s1
    \<and> list_all (\<lambda>e. (\<lambda>ws. True) (fst (snd e))) (drop (length (trace s1)) (trace (snd (setup_sh E s1))))"
    by (rule setup_sh_second_run [OF pass ok _ npm env _ fe be]) simp_all
  have skip: "fst (setup_sh E s1) = 0 \<and> files (snd (setup_sh E s1)) = files s1
    \<and> list_all (\<lambda>e. \<not> writes (fst (snd e))) (drop (length (trace s1)) (trace (snd (setup_sh E s1))))"
    if "is_file (files s1) (cwd s1 @ [''.env''])"
    by (rule setup_sh_second_run [OF pass ok _ npm env _ fe be]) (simp_all add: that)
  show ?thesis
    using all skip by blast
qed

theorem setup_sh_rerun_witness:
  "setup_sh node20 fresh_checkout = (0, snd (setup_sh node20 fresh_checkout))
   \<and> fst (setup_sh node20 (snd (setup_sh node20 fresh_checkout))) = 0
   \<and> files (snd (setup_sh node20 (snd (setup_sh node20 fresh_checkout))))
       = files (snd (setup_sh node20 fresh_checkout))
   \<and> list_all (\<lambda>e. \<not> writes (fst (snd e)))
        (drop (length (trace (snd (setup_sh node20 fresh_checkout))))
           (trace (snd (setup_sh node20 (snd (setup_sh node20 fresh_checkout))))))"
proof -
  have run: "setup_sh node20 fresh_checkout = (0, snd (setup_sh node20 fresh_checkout))"
    using fresh_checkout_runs by (simp add: prod_eq_iff)
  have npm: "run_ext node20 [''npm'', ''install''] (cwd (snd (setup_sh node20 fresh_checkout)))
      (files (snd (setup_sh node20 fresh_checkout))) = (0, files (snd (setup_sh node20 fresh_checkout)))"
    by (simp add: node20_def)
  show ?thesis
    using setup_sh_rerun [OF run npm] run fresh_checkout_env by blast
qed

text \<open>
  C1 as stated fails, since \<^verbatim>\<open>npm install\<close> runs unguarded on every run: where it
  appends to \<^verbatim>\<open>install.log\<close>, the first run on a fresh checkout completes and the
  second run leaves other files than the first.
\<close>

theorem second_run_changes_files:
  "fst (setup_sh npm_logging fresh_checkout) = 0
   \<and> files (snd (setup_sh npm_logging (snd (setup_sh npm_logging fresh_checkout))))
       \<noteq> files (snd (setup_sh npm_logging fresh_checkout))"
proof -
  have "files (snd (setup_sh npm_logging (snd (setup_sh npm_logging fresh_checkout)))) [''install.log'']
      \<noteq> files (snd (setup_sh npm_logging fresh_checkout)) [''install.log'']"
    by (simp add: npm_logging_first npm_logging_second)
  then have "files (snd (setup_sh npm_logging (snd (setup_sh npm_logging fresh_checkout))))
       \<noteq> files (snd (setup_sh npm_logging fresh_checkout))"
    by (rule contrapos_nn) simp
  with npm_logging_runs show ?thesis by simp
qed

subsection \<open>The existence checks\<close>






















lemma nonwrite_words' [simp]:
  "\<not> writes (''npx'' # r)" "\<not> writes (''sudo'' # r)" "\<not> writes (''cd'' # r)"
  by (simp_all add: writes_def)








section \<open>The command-line arguments\<close>

lemma ignores_params_simple:
  assumes "\<And>s a. sem (s\<lparr>params := a\<rparr>) = (fst (sem s), (snd (sem s))\<lparr>params := a\<rparr>)"
  shows "ignores_params (simple ws sem)"
  unfolding ignores_params_def
proof (intro allI)
  fix s a
  obtain rc s' where sem: "sem s = (rc, s')" by (cases "sem s")
  have "sem (s\<lparr>params := a\<rparr>) = (fst (sem s), (snd (sem s))\<lparr>params := a\<rparr>)"
    by (rule assms)
  with sem have "sem (s\<lparr>params := a\<rparr>) = (rc, s'\<lparr>params := a\<rparr>)" by simp
  with sem show "simple ws sem (s\<lparr>params := a\<rparr>) = with_params a (simple ws sem s)"
    by (simp add: simple_def log_def)
qed

lemma ignores_params_echo: "ignores_params (echo E t)"
  unfolding echo_def by (rule ignores_params_simple) simp

lemma ignores_params_ext: "ignores_params (ext E ws)"
  unfolding ext_def by (rule ignores_params_simple) (simp split: prod.split)

lemma ignores_params_cp_cmd: "ignores_params (cp_cmd a b)"
  unfolding cp_cmd_def by (rule ignores_params_simple) (simp split: prod.split)

lemma ignores_params_mkdir_p_cmd: "ignores_params (mkdir_p_cmd p)"
  unfolding mkdir_p_cmd_def by (rule ignores_params_simple) (simp split: prod.split)

lemma ignores_params_cat_to: "ignores_params (cat_to p doc)"
  unfolding cat_to_def by (rule ignores_params_simple) (simp split: prod.split)

lemma ignores_params_cd: "ignores_params (cd d)"
  unfolding cd_def by (rule ignores_params_simple) simp

lemma ignores_params_exit_cmd: "ignores_params (exit_cmd n w)"
  by (simp add: ignores_params_def exit_cmd_def log_def)

lemma ignores_params_assign_node_version: "ignores_params (assign_node_version E)"
  by (simp add: ignores_params_def assign_node_version_def Let_def log_def)

lemma ignores_params_echo_node_v: "ignores_params (echo_node_v E t)"
  by (simp add: ignores_params_def echo_node_v_def echo_def simple_def log_def)

lemma ignores_params_set_e: "ignores_params set_e"
  by (simp add: ignores_params_def set_e_def)

lemma ignores_params_seq: "list_all ignores_params cs \<Longrightarrow> ignores_params (seq cs)"
proof (induction cs)
  case Nil
  show ?case by (simp add: ignores_params_def)
next
  case (Cons c cs)
  then have c: "\<And>s a. c (s\<lparr>params := a\<rparr>) = with_params a (c s)"
    and cs: "\<And>s a. seq cs (s\<lparr>params := a\<rparr>) = with_params a (seq cs s)"
    by (simp_all add: ignores_params_def)
  show ?case
    unfolding ignores_params_def
  proof (intro allI)
    fix s a
    show "seq (c # cs) (s\<lparr>params := a\<rparr>) = with_params a (seq (c # cs) s)"
      by (cases "c s") (simp_all add: c cs)
  qed
qed

lemma ignores_params_if_then_else:
  assumes "test_ignores_params b" "list_all ignores_params thn" "list_all ignores_params els"
  shows "ignores_params (if_then_else b thn els)"
proof -
  have b: "\<And>s a. b (s\<lparr>params := a\<rparr>) = (fst (b s), (snd (b s))\<lparr>params := a\<rparr>)"
    using assms(1) by (simp add: test_ignores_params_def)
  have thn: "\<And>s a. seq thn (s\<lparr>params := a\<rparr>) = with_params a (seq thn s)"
    using ignores_params_seq [OF assms(2)] by (simp add: ignores_params_def)
  have els: "\<And>s a. seq els (s\<lparr>params := a\<rparr>) = with_params a (seq els s)"
    using ignores_params_seq [OF assms(3)] by (simp add: ignores_params_def)
  show ?thesis
    by (simp add: ignores_params_def if_then_else_run b thn els split: prod.split)
qed

lemma test_ignores_params_test_not_f: "test_ignores_params (test_not_f p)"
  by (simp add: test_ignores_params_def test_not_f_def Let_def log_def)

lemma test_ignores_params_test_not_d: "test_ignores_params (test_not_d p)"
  by (simp add: test_ignores_params_def test_not_d_def Let_def log_def)

lemma test_ignores_params_not_command_v_node: "test_ignores_params (not_command_v_node E)"
  by (simp add: test_ignores_params_def not_command_v_node_def Let_def log_def)

lemma test_ignores_params_test_lt: "test_ignores_params (test_lt var n w)"
  by (simp add: test_ignores_params_def test_lt_def Let_def log_def)

lemmas ignores_params_rules =
  ignores_params_set_e ignores_params_echo ignores_params_ext ignores_params_cp_cmd ignores_params_mkdir_p_cmd
  ignores_params_cat_to ignores_params_cd ignores_params_exit_cmd
  ignores_params_assign_node_version ignores_params_echo_node_v ignores_params_seq
  ignores_params_if_then_else test_ignores_params_test_not_f test_ignores_params_test_not_d
  test_ignores_params_not_command_v_node test_ignores_params_test_lt

lemma finish_with_params:
  "finish (with_params a r) = (fst (finish r), (snd (finish r))\<lparr>params := a\<rparr>)"
  by (cases r) (simp_all add: finish_def)

lemma setup_sh_with_params:
  "setup_sh E (s\<lparr>params := a\<rparr>) = (fst (setup_sh E s), (snd (setup_sh E s))\<lparr>params := a\<rparr>)"
proof -
  have "ignores_params
     (seq [set_e, echo E (rocket @ '' Setting up Actual Build development environment...''),
           check_node_installed E, check_node_version E, setup_body E])"
    by (simp add: ignores_params_rules check_node_installed_def check_node_version_def
        setup_body_def create_env_file_def create_frontend_package_json_def
        create_backend_package_json_def setup_next_steps_def)
  then show ?thesis
    unfolding setup_sh_def ignores_params_def by (simp only: finish_with_params)
qed

lemma codespace_setup_with_params:
  "codespace_setup E (s\<lparr>params := a\<rparr>) =
     (fst (codespace_setup E s), (snd (codespace_setup E s))\<lparr>params := a\<rparr>)"
proof -
  have "ignores_params
     (seq [set_e, echo E (rocket @ '' Setting up Actual Build Codespace...''),
           install_system_dependencies E, set_up_environment_file E, install_root_dependencies E,
           set_up_frontend E, set_up_backend E, set_up_shared E,
           create_development_configuration E, codespace_next_steps E])"
    by (simp add: ignores_params_rules install_system_dependencies_def
        set_up_environment_file_def install_root_dependencies_def set_up_frontend_def
        set_up_backend_def set_up_shared_def create_development_configuration_def
        codespace_next_steps_def)
  then show ?thesis
    unfolding codespace_setup_def ignores_params_def by (simp only: finish_with_params)
qed

text \<open>
  C7. Neither script reads its arguments: for every two argument lists, a run of
  \<^verbatim>\<open>setup.sh\<close>, and likewise a run of the Codespace setup script, ends with the same
  exit status, the same files, in the same directory, having printed the same lines and
  run the same commands with the same statuses. Success is signalled by the exit status:
  either script exits with status 0 exactly when the last command it ran is its closing
  \<^verbatim>\<open>echo\<close>.
\<close>

theorem scripts_ignore_arguments:
  "observable (setup_sh E (s\<lparr>params := a1\<rparr>)) = observable (setup_sh E (s\<lparr>params := a2\<rparr>))
   \<and> observable (codespace_setup E (s\<lparr>params := a1\<rparr>))
       = observable (codespace_setup E (s\<lparr>params := a2\<rparr>))
   \<and> (fst (setup_sh E s) = 0) =
       (last (trace (snd (setup_sh E s)))
        = (Checked, [''echo'', books @ '' Check the README.md for detailed instructions''], 0))
   \<and> (fst (codespace_setup E s) = 0) =
       (last (trace (snd (codespace_setup E s)))
        = (Checked, [''echo'', books @ '' Check the docs/ directory for detailed guides''], 0))"
proof (intro conjI)
  show "(fst (setup_sh E s) = 0) =
       (last (trace (snd (setup_sh E s)))
        = (Checked, [''echo'', books @ '' Check the README.md for detailed instructions''], 0))"
    unfolding setup_sh_script
    by (rule script_ran_to_end [OF traced_setup_sh_body setup_sh_last_command])
  show "(fst (codespace_setup E s) = 0) =
       (last (trace (snd (codespace_setup E s)))
        = (Checked, [''echo'', books @ '' Check the docs/ directory for detailed guides''], 0))"
    unfolding codespace_setup_script
    by (rule script_ran_to_end [OF traced_codespace_body codespace_last_command])
qed (simp_all add: observable_def setup_sh_with_params codespace_setup_with_params)

section \<open>The layout\<close>

text \<open>
  C4. For every \<^verbatim>\<open>children\<close> value, the empty ones (\<^verbatim>\<open>undefined\<close>, \<^verbatim>\<open>null\<close>) included,
  \<^verbatim>\<open>RootLayout\<close> returns an \<^verbatim>\<open>html\<close> element whose only property is \<^verbatim>\<open>lang="en"\<close>,
  holding a \<^verbatim>\<open>body\<close> element whose only property is \<^verbatim>\<open>className="antialiased"\<close>, holding
  the children unchanged. The function is total and has no branch.
\<close>

theorem RootLayout_wraps_children:
  "element_type (RootLayout props) = Some ''html''
   \<and> element_props (RootLayout props) = [(''lang'', ''en'')]
   \<and> element_type (element_children (RootLayout props)) = Some ''body''
   \<and> element_props (element_children (RootLayout props)) = [(''className'', ''antialiased'')]
   \<and> element_children (element_children (RootLayout props)) = children props"
  by (simp add: RootLayout_def)

end
